theory Spec2Isabelle
  imports Complex_Main
begin

section \<open>Window manager of \<open>src/script.js\<close>: data model\<close>

text \<open>
  The class \<open>WindowManager\<close> keeps a registry of windows (a plain object keyed by the
  window's \<open>data-app\<close> name), a stacking counter, the recorded active window and the state of
  the drag and resize gestures. Every method mutates the manager and the DOM elements of the
  windows; here each method takes the manager and returns the updated one.

  Pixel quantities are JavaScript numbers; they are modelled as exact reals (no rounding), the
  stacking counter as an unbounded integer.
\<close>

subsection \<open>The visual surface of a window\<close>

text \<open>
  Of a window's DOM element the code reads and writes: the three classes \<open>active\<close>,
  \<open>maximized\<close> and \<open>minimized\<close> of its class list, the inline style properties \<open>left\<close>,
  \<open>top\<close>, \<open>width\<close>, \<open>height\<close> and \<open>zIndex\<close>, and its measured box. An inline
  \<open>zIndex\<close> that was never assigned is \<open>None\<close>.
\<close>

record element =
  cls_active :: bool
  cls_maximized :: bool
  cls_minimized :: bool
  style_left :: real
  style_top :: real
  style_width :: real
  style_height :: real
  style_zIndex :: "int option"

record rect =
  r_left :: real
  r_top :: real
  r_width :: real
  r_height :: real

text \<open>
  The page around the windows: the viewport size (\<open>document.documentElement.clientWidth\<close> and
  \<open>clientHeight\<close>), the origin of the desktop element (\<open>desktopElement.getBoundingClientRect()\<close>,
  or \<open>0, 0\<close> without a desktop element), and the two facts that only the style sheet decides:
  the box a window with class \<open>maximized\<close> occupies, and which combinations of the classes
  (active, maximized, minimized) give \<open>display: none\<close>. The style sheet is not part of the
  script, so both are parameters. So is the answer of \<open>document.querySelector\<close> to the
  dock-icon selectors that are neither plain nor broken by a quote (see \<open>querySelectorDockIcon\<close>
  below): a syntax error, no element, or the dock icon with a given \<open>data-app\<close>.
\<close>

datatype query = InvalidSelector | NotFound | Found string

record env =
  clientWidth :: real
  clientHeight :: real
  desktopLeft :: real
  desktopTop :: real
  maximizedRect :: rect
  displayNone :: "bool \<Rightarrow> bool \<Rightarrow> bool \<Rightarrow> bool"
  otherSelectors :: "string \<Rightarrow> query"

definition isHidden :: "env \<Rightarrow> element \<Rightarrow> bool" where
  \<comment> \<open>\<open>getComputedStyle(windowElement).display === 'none'\<close>\<close>
  "isHidden v e = displayNone v (cls_active e) (cls_maximized e) (cls_minimized e)"

definition getBoundingClientRect :: "env \<Rightarrow> element \<Rightarrow> rect" where
  \<comment> \<open>An element that is not displayed measures as the zero box; a maximized one takes the
      style sheet's box; otherwise the window is positioned inside the desktop by its
      \<open>left\<close>/\<open>top\<close> and has its \<open>width\<close>/\<open>height\<close>.\<close>
  "getBoundingClientRect v e =
     (if isHidden v e then \<lparr>r_left = 0, r_top = 0, r_width = 0, r_height = 0\<rparr>
      else if cls_maximized e then maximizedRect v
      else \<lparr>r_left = desktopLeft v + style_left e, r_top = desktopTop v + style_top e,
             r_width = style_width e, r_height = style_height e\<rparr>)"

definition offsetWidth :: "env \<Rightarrow> element \<Rightarrow> real" where
  "offsetWidth v e = r_width (getBoundingClientRect v e)"

definition offsetHeight :: "env \<Rightarrow> element \<Rightarrow> real" where
  "offsetHeight v e = r_height (getBoundingClientRect v e)"

subsection \<open>Registry entries and the manager\<close>

datatype wstate = Closed | Open | Minimized | Maximized

record point =
  p_x :: real
  p_y :: real

record extent =
  e_width :: real
  e_height :: real

record windowData =
  element :: element
  state :: wstate
  originalPosition :: point
  originalSize :: extent

datatype direction =
  Top | Right | Bottom | Left | TopLeft | TopRight | BottomLeft | BottomRight

record anchor =
  a_x :: real
  a_y :: real
  a_width :: real
  a_height :: real
  a_left :: real
  a_top :: real

text \<open>
  The fields of the constructor (lines 4 to 16). \<open>dock\<close> is the state of the dock icons: an
  icon exists for the names in its domain and carries the class \<open>active\<close> or not.
\<close>

record manager =
  windows :: "string \<rightharpoonup> windowData"
  activeWindow :: "string option"
  maxZIndex :: int
  dragging :: bool
  dragOffset :: point
  currentDraggedWindow :: "string option"
  resizing :: bool
  resizeTarget :: "string option"
  resizeDirection :: "direction option"
  resizeStart :: "anchor option"
  menuBarHeight :: real
  viewportPadding :: real
  dock :: "string \<rightharpoonup> bool"

definition constructor :: "(string \<rightharpoonup> bool) \<Rightarrow> manager" where
  "constructor icons =
     \<lparr>windows = Map.empty, activeWindow = None, maxZIndex = 200, dragging = False,
      dragOffset = \<lparr>p_x = 0, p_y = 0\<rparr>, currentDraggedWindow = None, resizing = False,
      resizeTarget = None, resizeDirection = None, resizeStart = None,
      menuBarHeight = 30, viewportPadding = 12, dock = icons\<rparr>"

definition register :: "manager \<Rightarrow> string \<times> element \<Rightarrow> manager" where
  \<comment> \<open>the body of the loop of \<open>init\<close> (lines 30 to 38)\<close>
  "register s ne =
     s\<lparr>windows := (windows s)(fst ne \<mapsto>
          \<lparr>element = snd ne, state = Closed,
           originalPosition = \<lparr>p_x = 0, p_y = 0\<rparr>,
           originalSize = \<lparr>e_width = 0, e_height = 0\<rparr>\<rparr>)\<rparr>"

subsection \<open>Looking a name up in the registry\<close>

text \<open>
  The registry is the object literal \<open>{}\<close>, and \<open>this.windows[appName]\<close> is a property read:
  a name that is no key of the registry but a property of \<open>Object.prototype\<close> yields that
  inherited property (a function or an object, hence truthy, and without the fields of a
  registry entry) instead of \<open>undefined\<close>.
\<close>

definition objectPrototypeKeys :: "string list" where
  "objectPrototypeKeys =
     [''constructor'', ''hasOwnProperty'', ''isPrototypeOf'', ''propertyIsEnumerable'',
      ''toLocaleString'', ''toString'', ''valueOf'', ''__proto__'',
      ''__defineGetter__'', ''__defineSetter__'', ''__lookupGetter__'', ''__lookupSetter__'']"

datatype lookup = Undefined | Inherited | Own windowData

definition lookupWindow :: "manager \<Rightarrow> string \<Rightarrow> lookup" where
  "lookupWindow s name =
     (case windows s name of
        Some wd \<Rightarrow> Own wd
      | None \<Rightarrow> if name \<in> set objectPrototypeKeys then Inherited else Undefined)"

text \<open>
  A method either returns or throws: a \<open>TypeError\<close> (a property read on \<open>undefined\<close>) or a
  \<open>SyntaxError\<close> (\<open>document.querySelector\<close> on an invalid selector). In every case the
  manager is left in the state reached so far.
\<close>

datatype outcome = Returned manager | TypeError manager | SyntaxError manager

fun state_of :: "outcome \<Rightarrow> manager" where
  "state_of (Returned s) = s"
| "state_of (TypeError s) = s"
| "state_of (SyntaxError s) = s"

fun andThen :: "outcome \<Rightarrow> (manager \<Rightarrow> outcome) \<Rightarrow> outcome" where
  "andThen (Returned s) f = f s"
| "andThen (TypeError s) f = TypeError s"
| "andThen (SyntaxError s) f = SyntaxError s"

section \<open>Geometry utilities\<close>

definition clamp :: "real \<Rightarrow> real \<Rightarrow> real \<Rightarrow> real" where
  "clamp value lo hi = min (max value lo) hi"

definition getMinDimensions :: "env \<Rightarrow> manager \<Rightarrow> extent" where
  "getMinDimensions v s =
     (let viewportWidth = clientWidth v;
          viewportHeight = clientHeight v;
          horizontalSpace = max 0 (viewportWidth - viewportPadding s * 2);
          verticalSpace = max 0 (viewportHeight - menuBarHeight s - viewportPadding s * 2);
          minWidth = (if horizontalSpace \<le> 240 then horizontalSpace else min 400 horizontalSpace);
          minHeight = (if verticalSpace \<le> 220 then verticalSpace else min 300 verticalSpace)
      in \<lparr>e_width = minWidth, e_height = minHeight\<rparr>)"

definition ensureWindowInViewport :: "env \<Rightarrow> manager \<Rightarrow> element \<Rightarrow> element" where
  "ensureWindowInViewport v s windowElement =
     (if cls_maximized windowElement \<or> isHidden v windowElement then windowElement
      else
        let padding = viewportPadding s;
            viewportWidth = clientWidth v;
            viewportHeight = clientHeight v;
            maxWidth = viewportWidth - padding * 2;
            maxHeight = viewportHeight - menuBarHeight s - padding * 2;
            e1 = (if maxWidth > 0
                  then windowElement\<lparr>style_width :=
                         min (r_width (getBoundingClientRect v windowElement)) maxWidth\<rparr>
                  else windowElement);
            e2 = (if maxHeight > 0
                  then e1\<lparr>style_height := min (r_height (getBoundingClientRect v e1)) maxHeight\<rparr>
                  else e1);
            updatedRect = getBoundingClientRect v e2;
            relativeLeft = r_left updatedRect - desktopLeft v;
            relativeTop = r_top updatedRect - desktopTop v;
            maxLeft = viewportWidth - r_width updatedRect - padding;
            maxTop = viewportHeight - r_height updatedRect - padding;
            newLeft = clamp relativeLeft padding (max padding maxLeft);
            newTop = clamp relativeTop (menuBarHeight s + padding)
                       (max (menuBarHeight s + padding) maxTop)
        in e2\<lparr>style_left := newLeft, style_top := newTop\<rparr>)"

definition ensureAllWindowsInViewport :: "env \<Rightarrow> manager \<Rightarrow> manager" where
  "ensureAllWindowsInViewport v s =
     s\<lparr>windows := (\<lambda>n. map_option
          (\<lambda>wd. wd\<lparr>element := ensureWindowInViewport v s (element wd)\<rparr>) (windows s n))\<rparr>"

definition mapElement :: "string \<Rightarrow> (element \<Rightarrow> element) \<Rightarrow> manager \<Rightarrow> manager" where
  \<comment> \<open>a write to the element of one registered window\<close>
  "mapElement name f s =
     (case windows s name of
        None \<Rightarrow> s
      | Some wd \<Rightarrow> s\<lparr>windows := (windows s)(name \<mapsto> wd\<lparr>element := f (element wd)\<rparr>)\<rparr>)"

section \<open>Focus and stacking\<close>

definition bringToFront :: "manager \<Rightarrow> string \<Rightarrow> outcome" where
  \<comment> \<open>For an inherited name the counter is incremented before \<open>window.style\<close> throws.\<close>
  "bringToFront s appName =
     (case lookupWindow s appName of
        Undefined \<Rightarrow> Returned s
      | Inherited \<Rightarrow> TypeError (s\<lparr>maxZIndex := maxZIndex s + 1\<rparr>)
      | Own windowData \<Rightarrow>
          Returned (s\<lparr>maxZIndex := maxZIndex s + 1,
                      activeWindow := Some appName,
                      windows := (\<lambda>n. map_option
                        (\<lambda>wd. if n = appName
                               then wd\<lparr>element := (element wd)
                                      \<lparr>cls_active := True,
                                       style_zIndex := Some (maxZIndex s + 1)\<rparr>\<rparr>
                               else wd\<lparr>element := (element wd)\<lparr>cls_active := False\<rparr>\<rparr>)
                        (windows s n))\<rparr>))"

text \<open>
  \<open>updateDockIcon\<close> pastes the name between double quotes into the selector
  \<open>.dock-icon[data-app="..."]\<close> (line 437) and hands it to \<open>document.querySelector\<close>.
  \<^item> A plain name (no double quote, backslash, line feed, form feed, carriage return or NUL)
    is the value of the selector's string, so the selector finds the dock icon whose
    \<open>data-app\<close> is that name, if the page has one.
  \<^item> In a name \<open>p"q\<close> with \<open>p\<close> plain and \<open>q\<close> ASCII letters (or empty), the quote ends the
    string after \<open>p\<close>; what follows inside the brackets (\<open>q\<close>, then the string opened by the
    selector's own closing quote) is no attribute selector, and \<open>querySelector\<close> throws a
    \<open>SyntaxError\<close>.
  \<^item> For every other name the answer is the page's (\<open>otherSelectors\<close>).
\<close>

definition plainChar :: "char \<Rightarrow> bool" where
  "plainChar c = (c \<notin> set [CHR 0x00, CHR 0x0A, CHR 0x0C, CHR 0x0D, CHR 0x22, CHR 0x5C])"

definition asciiLetter :: "char \<Rightarrow> bool" where
  "asciiLetter c = (c \<in> set ''abcdefghijklmnopqrstuvwxyzABCDEFGHIJKLMNOPQRSTUVWXYZ'')"

definition quoteBroken :: "string \<Rightarrow> bool" where
  "quoteBroken name =
     (let rest = dropWhile (\<lambda>c. c \<noteq> CHR 0x22) name
      in rest \<noteq> [] \<and> list_all plainChar (takeWhile (\<lambda>c. c \<noteq> CHR 0x22) name) \<and>
         list_all asciiLetter (tl rest))"

definition querySelectorDockIcon :: "env \<Rightarrow> manager \<Rightarrow> string \<Rightarrow> query" where
  "querySelectorDockIcon v s appName =
     (if list_all plainChar appName
      then (case dock s appName of None \<Rightarrow> NotFound | Some _ \<Rightarrow> Found appName)
      else if quoteBroken appName then InvalidSelector
      else otherSelectors v appName)"

definition updateDockIcon :: "env \<Rightarrow> manager \<Rightarrow> string \<Rightarrow> bool \<Rightarrow> outcome" where
  "updateDockIcon v s appName isActive =
     (case querySelectorDockIcon v s appName of
        InvalidSelector \<Rightarrow> SyntaxError s
      | NotFound \<Rightarrow> Returned s
      | Found k \<Rightarrow>
          Returned (case dock s k of
                      None \<Rightarrow> s
                    | Some _ \<Rightarrow> s\<lparr>dock := (dock s)(k \<mapsto> isActive)\<rparr>))"

section \<open>Lifecycle\<close>

definition openWindow :: "env \<Rightarrow> manager \<Rightarrow> string \<Rightarrow> outcome" where
  "openWindow v s appName =
     (case lookupWindow s appName of
        Undefined \<Rightarrow> Returned s
      | Inherited \<Rightarrow> bringToFront s appName
      | Own windowData \<Rightarrow>
          let wd1 = (if state windowData = Minimized
                     then windowData\<lparr>element := (element windowData)\<lparr>cls_minimized := False\<rparr>,
                                     state := Open\<rparr>
                     else windowData);
              wd2 = (if state wd1 = Closed
                     then wd1\<lparr>element := (element wd1)\<lparr>cls_active := True\<rparr>, state := Open\<rparr>
                     else wd1)
          in andThen (bringToFront (s\<lparr>windows := (windows s)(appName \<mapsto> wd2)\<rparr>) appName)
               (\<lambda>s2. updateDockIcon v
                  (mapElement appName (ensureWindowInViewport v s2) s2) appName True))"

definition closeWindow :: "env \<Rightarrow> manager \<Rightarrow> string \<Rightarrow> outcome" where
  "closeWindow v s appName =
     (case lookupWindow s appName of
        Undefined \<Rightarrow> Returned s
      | Inherited \<Rightarrow> TypeError s
      | Own windowData \<Rightarrow>
          updateDockIcon v
            (s\<lparr>windows := (windows s)(appName \<mapsto>
                 windowData\<lparr>element := (element windowData)
                              \<lparr>cls_active := False, cls_maximized := False,
                               cls_minimized := False\<rparr>,
                            state := Closed\<rparr>)\<rparr>)
            appName False)"

definition minimizeWindow :: "env \<Rightarrow> manager \<Rightarrow> string \<Rightarrow> outcome" where
  "minimizeWindow v s appName =
     (case lookupWindow s appName of
        Undefined \<Rightarrow> Returned s
      | Inherited \<Rightarrow> TypeError s
      | Own windowData \<Rightarrow>
          updateDockIcon v
            (s\<lparr>windows := (windows s)(appName \<mapsto>
                 windowData\<lparr>element := (element windowData)
                              \<lparr>cls_minimized := True, cls_active := False,
                               cls_maximized := False\<rparr>,
                            state := Minimized\<rparr>)\<rparr>)
            appName True)"

definition maximizeWindow :: "env \<Rightarrow> manager \<Rightarrow> string \<Rightarrow> outcome" where
  "maximizeWindow v s appName =
     (case lookupWindow s appName of
        Undefined \<Rightarrow> Returned s
      | Inherited \<Rightarrow> TypeError s
      | Own windowData \<Rightarrow>
          let window = element windowData in
          if cls_maximized window then
            let w0 = window\<lparr>cls_maximized := False\<rparr>;
                originalPos = originalPosition windowData;
                originalSize = originalSize windowData;
                w1 = (if p_x originalPos \<noteq> 0 \<and> p_y originalPos \<noteq> 0
                      then w0\<lparr>style_left := p_x originalPos, style_top := p_y originalPos\<rparr>
                      else w0);
                w2 = (if e_width originalSize \<noteq> 0 \<and> e_height originalSize \<noteq> 0
                      then w1\<lparr>style_width := e_width originalSize,
                              style_height := e_height originalSize\<rparr>
                      else w1)
            in Returned (s\<lparr>windows := (windows s)(appName \<mapsto>
                 windowData\<lparr>element := ensureWindowInViewport v s w2\<rparr>)\<rparr>)
          else
            let rect = getBoundingClientRect v window
            in Returned (s\<lparr>windows := (windows s)(appName \<mapsto>
                 windowData\<lparr>originalPosition := \<lparr>p_x = r_left rect, p_y = r_top rect\<rparr>,
                            originalSize := \<lparr>e_width = r_width rect, e_height = r_height rect\<rparr>,
                            element := window\<lparr>cls_maximized := True\<rparr>\<rparr>)\<rparr>))"

definition toggleWindow :: "env \<Rightarrow> manager \<Rightarrow> string \<Rightarrow> outcome" where
  \<comment> \<open>For an inherited name \<open>windowData.state\<close> is \<open>undefined\<close> and no case of the switch
      matches.\<close>
  "toggleWindow v s appName =
     (case lookupWindow s appName of
        Undefined \<Rightarrow> Returned s
      | Inherited \<Rightarrow> Returned s
      | Own windowData \<Rightarrow>
          (case state windowData of
             Closed \<Rightarrow> openWindow v s appName
           | Minimized \<Rightarrow> openWindow v s appName
           | Open \<Rightarrow> bringToFront s appName
           | Maximized \<Rightarrow> bringToFront s appName))"

section \<open>Pointer gestures\<close>

text \<open>
  The handlers of \<open>setupDrag\<close> and \<open>setupResizeHandles\<close>. A title bar and the eight
  handles exist for registered windows only, so a pointer-down that names an unregistered
  window does not occur and is modelled as doing nothing. The cursor and text-selection
  styles of the document body are not part of the manager and are left out.
\<close>

definition titleMouseDown :: "env \<Rightarrow> manager \<Rightarrow> string \<Rightarrow> bool \<Rightarrow> real \<Rightarrow> real \<Rightarrow> outcome" where
  \<comment> \<open>\<open>onControl\<close>: the event target has class \<open>control-btn\<close>\<close>
  "titleMouseDown v s appName onControl clientX clientY =
     (if onControl then Returned s
      else case windows s appName of
        None \<Rightarrow> Returned s
      | Some _ \<Rightarrow>
          andThen (bringToFront s appName) (\<lambda>s1.
            let s2 = s1\<lparr>dragging := True, currentDraggedWindow := Some appName\<rparr>
            in case windows s2 appName of
                 None \<Rightarrow> Returned s2
               | Some wd \<Rightarrow>
                   let rect = getBoundingClientRect v (element wd);
                       s3 = s2\<lparr>dragOffset := \<lparr>p_x = clientX - r_left rect,
                                              p_y = clientY - r_top rect\<rparr>\<rparr>
                   in if \<not> cls_maximized (element wd)
                      then Returned (s3\<lparr>windows := (windows s3)(appName \<mapsto>
                             wd\<lparr>originalPosition := \<lparr>p_x = r_left rect, p_y = r_top rect\<rparr>\<rparr>)\<rparr>)
                      else Returned s3))"

definition includesRight :: "direction \<Rightarrow> bool" where
  "includesRight d = (d = Right \<or> d = TopRight \<or> d = BottomRight)"

definition includesLeft :: "direction \<Rightarrow> bool" where
  "includesLeft d = (d = Left \<or> d = TopLeft \<or> d = BottomLeft)"

definition includesBottom :: "direction \<Rightarrow> bool" where
  "includesBottom d = (d = Bottom \<or> d = BottomLeft \<or> d = BottomRight)"

definition includesTop :: "direction \<Rightarrow> bool" where
  "includesTop d = (d = Top \<or> d = TopLeft \<or> d = TopRight)"

definition resizeBox :: "env \<Rightarrow> manager \<Rightarrow> direction \<Rightarrow> anchor \<Rightarrow> real \<Rightarrow> real \<Rightarrow> rect" where
  \<comment> \<open>lines 265 to 309 of \<open>handleResize\<close>: the box that is then written to the element\<close>
  "resizeBox v s direction start clientX clientY =
     (let dx = clientX - a_x start;
          dy = clientY - a_y start;
          viewportWidth = clientWidth v;
          viewportHeight = clientHeight v;
          minWidth = e_width (getMinDimensions v s);
          minHeight = e_height (getMinDimensions v s);
          newWidth = a_width start;
          newHeight = a_height start;
          newLeft = a_left start;
          newTop = a_top start;
          newWidth = (if includesRight direction then a_width start + dx else newWidth);
          (newWidth, newLeft) = (if includesLeft direction
                                 then (a_width start - dx, a_left start + dx)
                                 else (newWidth, newLeft));
          newHeight = (if includesBottom direction then a_height start + dy else newHeight);
          (newHeight, newTop) = (if includesTop direction
                                 then (a_height start - dy, a_top start + dy)
                                 else (newHeight, newTop));
          newWidth = max minWidth newWidth;
          newHeight = max minHeight newHeight;
          (newWidth, newLeft) = (if newLeft < 0 then (newWidth + newLeft, 0)
                                 else (newWidth, newLeft));
          (newHeight, newTop) = (if newTop < menuBarHeight s
                                 then (newHeight + (newTop - menuBarHeight s), menuBarHeight s)
                                 else (newHeight, newTop));
          newWidth = (if newLeft + newWidth > viewportWidth then viewportWidth - newLeft
                      else newWidth);
          newHeight = (if newTop + newHeight > viewportHeight then viewportHeight - newTop
                       else newHeight)
      in \<lparr>r_left = newLeft, r_top = newTop, r_width = newWidth, r_height = newHeight\<rparr>)"

definition handleResize :: "env \<Rightarrow> manager \<Rightarrow> real \<Rightarrow> real \<Rightarrow> outcome" where
  \<comment> \<open>A \<open>null\<close> target is the key \<open>"null"\<close>; a \<open>null\<close> direction or anchor throws at
      its first property read, before anything is written. A negative length is no valid
      \<open>width\<close> or \<open>height\<close>: the element drops such a declaration and keeps the size it
      had (\<open>left\<close> and \<open>top\<close> may be negative).\<close>
  "handleResize v s clientX clientY =
     (let key = (case resizeTarget s of None \<Rightarrow> ''null'' | Some n \<Rightarrow> n)
      in case lookupWindow s key of
           Undefined \<Rightarrow> Returned s
         | Inherited \<Rightarrow> TypeError s
         | Own windowData \<Rightarrow>
             (case (resizeDirection s, resizeStart s) of
                (Some direction, Some start) \<Rightarrow>
                  let box = resizeBox v s direction start clientX clientY
                  in Returned (s\<lparr>windows := (windows s)(key \<mapsto>
                       windowData\<lparr>element := (element windowData)
                         \<lparr>style_width := (if r_width box < 0
                                          then style_width (element windowData)
                                          else r_width box),
                          style_height := (if r_height box < 0
                                           then style_height (element windowData)
                                           else r_height box),
                          style_left := r_left box, style_top := r_top box\<rparr>\<rparr>)\<rparr>)
              | _ \<Rightarrow> TypeError s))"

definition handleMouseDown :: "env \<Rightarrow> manager \<Rightarrow> string \<Rightarrow> direction \<Rightarrow> real \<Rightarrow> real \<Rightarrow> outcome" where
  "handleMouseDown v s appName direction clientX clientY =
     (case windows s appName of
        None \<Rightarrow> Returned s
      | Some wd0 \<Rightarrow>
          if cls_maximized (element wd0) then Returned s
          else andThen (bringToFront s appName) (\<lambda>s1.
            case windows s1 appName of
              None \<Rightarrow> Returned s1
            | Some wd \<Rightarrow>
                let rect = getBoundingClientRect v (element wd)
                in Returned (s1\<lparr>resizing := True, resizeTarget := Some appName,
                       resizeDirection := Some direction,
                       resizeStart := Some \<lparr>a_x = clientX, a_y = clientY,
                         a_width = r_width rect, a_height = r_height rect,
                         a_left = r_left rect, a_top = r_top rect\<rparr>\<rparr>)))"

definition truthyName :: "string option \<Rightarrow> string option" where
  \<comment> \<open>\<open>null\<close> and the empty string are falsy\<close>
  "truthyName x = (case x of None \<Rightarrow> None | Some n \<Rightarrow> if n = [] then None else Some n)"

definition mouseMove :: "env \<Rightarrow> manager \<Rightarrow> real \<Rightarrow> real \<Rightarrow> outcome" where
  "mouseMove v s clientX clientY =
     (if resizing s \<and> truthyName (resizeTarget s) \<noteq> None then handleResize v s clientX clientY
      else case (if dragging s then truthyName (currentDraggedWindow s) else None) of
        None \<Rightarrow> Returned s
      | Some name \<Rightarrow>
          (case lookupWindow s name of
             Undefined \<Rightarrow> TypeError s
           | Inherited \<Rightarrow> TypeError s
           | Own wd \<Rightarrow>
               andThen
                 (if cls_maximized (element wd)
                  then andThen (maximizeWindow v s name) (\<lambda>s1.
                    case windows s1 name of
                      None \<Rightarrow> Returned s1
                    | Some wd1 \<Rightarrow>
                        let rect = getBoundingClientRect v (element wd1)
                        in Returned (s1\<lparr>dragOffset :=
                             \<lparr>p_x = clientX - r_width rect / 2, p_y = clientY - 50\<rparr>\<rparr>))
                  else Returned s)
                 (\<lambda>s2. Returned (mapElement name
                    (\<lambda>windowElement.
                       let newX = clientX - p_x (dragOffset s2);
                           newY = clientY - p_y (dragOffset s2);
                           viewportWidth = clientWidth v;
                           viewportHeight = clientHeight v;
                           windowWidth = offsetWidth v windowElement;
                           windowHeight = offsetHeight v windowElement;
                           maxX = viewportWidth - windowWidth;
                           maxY = viewportHeight - windowHeight
                       in windowElement\<lparr>style_left := max 0 (min newX maxX),
                                          style_top := max (menuBarHeight s2) (min newY maxY)\<rparr>)
                    s2))))"

definition mouseUp :: "manager \<Rightarrow> manager" where
  "mouseUp s =
     (let s1 = (if dragging s then s\<lparr>dragging := False, currentDraggedWindow := None\<rparr> else s)
      in if resizing s1
         then s1\<lparr>resizing := False, resizeTarget := None, resizeDirection := None,
                 resizeStart := None\<rparr>
         else s1)"

section \<open>Events and runs\<close>

text \<open>
  The entry points of the manager: the six commands, the pointer events and the viewport's
  \<open>resize\<close> event. An exception ends the handler that raised it; the page goes on with the
  state reached.
\<close>

datatype event =
    OpenWindow string
  | CloseWindow string
  | MinimizeWindow string
  | MaximizeWindow string
  | ToggleWindow string
  | BringToFront string
  | TitleMouseDown string bool real real
  | HandleMouseDown string direction real real
  | MouseMove real real
  | MouseUp
  | ViewportResize

fun handle :: "env \<Rightarrow> manager \<Rightarrow> event \<Rightarrow> outcome" where
  "handle v s (OpenWindow n) = openWindow v s n"
| "handle v s (CloseWindow n) = closeWindow v s n"
| "handle v s (MinimizeWindow n) = minimizeWindow v s n"
| "handle v s (MaximizeWindow n) = maximizeWindow v s n"
| "handle v s (ToggleWindow n) = toggleWindow v s n"
| "handle v s (BringToFront n) = bringToFront s n"
| "handle v s (TitleMouseDown n c x y) = titleMouseDown v s n c x y"
| "handle v s (HandleMouseDown n d x y) = handleMouseDown v s n d x y"
| "handle v s (MouseMove x y) = mouseMove v s x y"
| "handle v s MouseUp = Returned (mouseUp s)"
| "handle v s ViewportResize = Returned (ensureAllWindowsInViewport v s)"

definition exec :: "env \<Rightarrow> manager \<Rightarrow> event \<Rightarrow> manager" where
  "exec v s ev = state_of (handle v s ev)"

fun run :: "manager \<Rightarrow> (env \<times> event) list \<Rightarrow> manager" where
  "run s [] = s"
| "run s (ve # ves) = run (exec (fst ve) s (snd ve)) ves"

definition init :: "env \<Rightarrow> real option \<Rightarrow> (string \<times> element) list \<Rightarrow> (string \<rightharpoonup> bool) \<Rightarrow> manager" where
  \<comment> \<open>\<open>init\<close> (lines 21 to 63): the menu bar's height when there is a menu bar, the
      registry of the page's windows, the first containment pass, then \<open>openWindow('about')\<close>\<close>
  "init v menuBar elements icons =
     (let s0 = constructor icons;
          s1 = (case menuBar of None \<Rightarrow> s0 | Some h \<Rightarrow> s0\<lparr>menuBarHeight := h\<rparr>);
          s2 = foldl register s1 elements;
          s3 = ensureAllWindowsInViewport v s2
      in exec v s3 (OpenWindow ''about''))"

section \<open>Definitions used in the statements\<close>

subsection \<open>A concrete page\<close>

text \<open>
  A page with one window named \<open>about\<close> and its dock icon, under a style sheet that shows a
  window exactly when it has class \<open>active\<close> and not class \<open>minimized\<close>, with the desktop
  at the viewport's origin and a maximized window filling the viewport below a menu bar of
  height 30.
\<close>

definition hiddenUnlessActive :: "bool \<Rightarrow> bool \<Rightarrow> bool \<Rightarrow> bool" where
  "hiddenUnlessActive a mx mn = (\<not> a \<or> mn)"

definition desk :: "real \<Rightarrow> real \<Rightarrow> env" where
  "desk w h = \<lparr>clientWidth = w, clientHeight = h, desktopLeft = 0, desktopTop = 0,
     maximizedRect = \<lparr>r_left = 0, r_top = 30, r_width = w, r_height = h - 30\<rparr>,
     displayNone = hiddenUnlessActive, otherSelectors = (\<lambda>name. NotFound)\<rparr>"

definition aboutElement :: element where
  "aboutElement = \<lparr>cls_active = False, cls_maximized = False, cls_minimized = False,
     style_left = 100, style_top = 100, style_width = 400, style_height = 300,
     style_zIndex = None\<rparr>"

definition page :: manager where
  "page = register (constructor [''about'' \<mapsto> False]) (''about'', aboutElement)"

subsection \<open>The two size cuts of the containment pass\<close>

definition fitWidth :: "env \<Rightarrow> manager \<Rightarrow> real \<Rightarrow> real" where
  "fitWidth v s w =
     (if clientWidth v - viewportPadding s * 2 > 0
      then min w (clientWidth v - viewportPadding s * 2) else w)"

definition fitHeight :: "env \<Rightarrow> manager \<Rightarrow> real \<Rightarrow> real" where
  "fitHeight v s h =
     (if clientHeight v - menuBarHeight s - viewportPadding s * 2 > 0
      then min h (clientHeight v - menuBarHeight s - viewportPadding s * 2) else h)"

subsection \<open>The restore branch of \<open>maximizeWindow\<close>\<close>

definition restoredElement :: "windowData \<Rightarrow> element" where
  \<comment> \<open>lines 378 to 389: the element before the containment pass of the restore\<close>
  "restoredElement windowData =
     (let w0 = (element windowData)\<lparr>cls_maximized := False\<rparr>;
          originalPos = originalPosition windowData;
          originalSize = originalSize windowData;
          w1 = (if p_x originalPos \<noteq> 0 \<and> p_y originalPos \<noteq> 0
                then w0\<lparr>style_left := p_x originalPos, style_top := p_y originalPos\<rparr>
                else w0)
      in if e_width originalSize \<noteq> 0 \<and> e_height originalSize \<noteq> 0
         then w1\<lparr>style_width := e_width originalSize, style_height := e_height originalSize\<rparr>
         else w1)"

subsection \<open>The window an event hands to \<open>bringToFront\<close>\<close>

fun frontTarget :: "event \<Rightarrow> string option" where
  "frontTarget (OpenWindow n) = Some n"
| "frontTarget (ToggleWindow n) = Some n"
| "frontTarget (BringToFront n) = Some n"
| "frontTarget (TitleMouseDown n c x y) = (if c then None else Some n)"
| "frontTarget (HandleMouseDown n d x y) = Some n"
| "frontTarget ev = None"

subsection \<open>Focus and stacking as the claims speak of them\<close>

text \<open>
  A window is active when its element has class \<open>active\<close>, its stack order is its inline
  \<open>zIndex\<close> (none while never assigned), and it is minimized when its registry state is
  \<open>minimized\<close>. \<open>focusInvariant\<close> is the invariant of the data model; \<open>counterBounds\<close>
  says that no assigned stack order exceeds the stacking counter.
\<close>

definition isActive :: "manager \<Rightarrow> string \<Rightarrow> bool" where
  "isActive s n = (case windows s n of None \<Rightarrow> False | Some wd \<Rightarrow> cls_active (element wd))"

definition stackOrder :: "manager \<Rightarrow> string \<Rightarrow> int option" where
  "stackOrder s n = (case windows s n of None \<Rightarrow> None | Some wd \<Rightarrow> style_zIndex (element wd))"

definition isMinimized :: "manager \<Rightarrow> string \<Rightarrow> bool" where
  "isMinimized s n = (case windows s n of None \<Rightarrow> False | Some wd \<Rightarrow> state wd = Minimized)"

definition atMostOneActive :: "manager \<Rightarrow> bool" where
  "atMostOneActive s = (\<forall>n m. isActive s n \<and> isActive s m \<longrightarrow> n = m)"

definition activeOnTop :: "manager \<Rightarrow> bool" where
  "activeOnTop s = (\<forall>n m z. isActive s n \<and> stackOrder s m = Some z \<longrightarrow>
                      (\<exists>zn. stackOrder s n = Some zn \<and> z \<le> zn))"

definition minimizedNotActive :: "manager \<Rightarrow> bool" where
  "minimizedNotActive s = (\<forall>n. isMinimized s n \<longrightarrow> \<not> isActive s n)"

definition focusInvariant :: "manager \<Rightarrow> bool" where
  "focusInvariant s = (atMostOneActive s \<and> activeOnTop s \<and> minimizedNotActive s)"

definition counterBounds :: "manager \<Rightarrow> bool" where
  "counterBounds s = (\<forall>n z. stackOrder s n = Some z \<longrightarrow> z \<le> maxZIndex s)"

text \<open>
  The events that hand a window to \<open>bringToFront\<close> in the state it is in (unlike
  \<open>openWindow\<close>, which first takes it out of the minimized state).
\<close>

fun raisesAsIs :: "event \<Rightarrow> string option" where
  "raisesAsIs (BringToFront n) = Some n"
| "raisesAsIs (TitleMouseDown n c x y) = (if c then None else Some n)"
| "raisesAsIs (HandleMouseDown n d x y) = Some n"
| "raisesAsIs ev = None"

text \<open>
  The two ways an event changes focus and stacking: it raises one window to the front, or it
  activates nothing and assigns no stack order.
\<close>

definition lowered :: "manager \<Rightarrow> manager \<Rightarrow> bool" where
  "lowered s s' = ((\<forall>m. isActive s' m \<longrightarrow> isActive s m) \<and> stackOrder s' = stackOrder s \<and>
     maxZIndex s \<le> maxZIndex s' \<and>
     (\<forall>m. isMinimized s' m \<longrightarrow> isMinimized s m \<or> \<not> isActive s' m))"

definition raised :: "manager \<Rightarrow> string \<Rightarrow> manager \<Rightarrow> bool" where
  "raised s n s' = (isActive s' = (\<lambda>m. m = n) \<and>
     stackOrder s' = (stackOrder s)(n := Some (maxZIndex s + 1)) \<and>
     maxZIndex s' = maxZIndex s + 1 \<and>
     (\<forall>m. isMinimized s' m \<longrightarrow> isMinimized s m))"

subsection \<open>States of the concrete page\<close>

definition opened :: manager where
  \<comment> \<open>the window \<open>about\<close> opened in a viewport of 1200 by 800\<close>
  "opened = exec (desk 1200 800) page (OpenWindow ''about'')"

definition grabbed :: manager where
  \<comment> \<open>then its title bar pressed at (150, 110)\<close>
  "grabbed = exec (desk 1200 800) opened (TitleMouseDown ''about'' False 150 110)"


definition elementOf :: "manager \<Rightarrow> string \<Rightarrow> element option" where
  "elementOf s n = map_option element (windows s n)"

definition minimizedPage :: manager where
  \<comment> \<open>the window opened and then minimized\<close>
  "minimizedPage = run page [(desk 1200 800, OpenWindow ''about''),
                             (desk 1200 800, MinimizeWindow ''about'')]"

definition maximizedPage :: manager where
  \<comment> \<open>the window opened and then maximized\<close>
  "maximizedPage = run page [(desk 1200 800, OpenWindow ''about''),
                             (desk 1200 800, MaximizeWindow ''about'')]"


definition squeezed :: manager where
  \<comment> \<open>the window opened, the viewport then shrunk to a height of 50 (too low for the
      containment pass to cut the window's height), the title bar pressed at (150, 45)\<close>
  "squeezed = run page [(desk 1200 800, OpenWindow ''about''),
                        (desk 1200 50, ViewportResize),
                        (desk 1200 50, TitleMouseDown ''about'' False 150 45)]"

subsection \<open>Pages with two windows\<close>

definition notesElement :: element where
  "notesElement = aboutElement\<lparr>style_left := 300, style_top := 200\<rparr>"

definition desktopWindows :: "(string \<times> element) list" where
  "desktopWindows = [(''about'', aboutElement), (''notes'', notesElement)]"

definition desktop :: manager where
  \<comment> \<open>the manager as \<open>init\<close> leaves it: both windows registered, \<open>about\<close> opened\<close>
  "desktop = init (desk 1200 800) None desktopWindows [''about'' \<mapsto> False, ''notes'' \<mapsto> False]"

definition bothOpen :: manager where
  \<comment> \<open>then \<open>notes\<close> opened as well\<close>
  "bothOpen = run desktop [(desk 1200 800, OpenWindow ''notes'')]"

definition taggedDesktop :: manager where
  \<comment> \<open>the same page, whose markup gives \<open>notes\<close> the inline style \<open>z-index: 500\<close>\<close>
  "taggedDesktop = init (desk 1200 800) None
     [(''about'', aboutElement), (''notes'', notesElement\<lparr>style_zIndex := Some 500\<rparr>)]
     [''about'' \<mapsto> False, ''notes'' \<mapsto> False]"

subsection \<open>A page whose window has a double quote in its name\<close>

definition quotedName :: string where
  "quotedName = [CHR ''a'', CHR 0x22, CHR ''b'']"

definition quotedPage :: manager where
  "quotedPage = register (constructor [quotedName \<mapsto> False]) (quotedName, aboutElement)"

subsection \<open>The box of a resize before the clamps\<close>





section \<open>Basic facts\<close>

lemmas ops = bringToFront_def openWindow_def closeWindow_def minimizeWindow_def
  maximizeWindow_def toggleWindow_def lookupWindow_def updateDockIcon_def mapElement_def
  querySelectorDockIcon_def

lemmas concrete = page_def register_def constructor_def aboutElement_def desk_def
  hiddenUnlessActive_def exec_def

lemma clamp_idem: "clamp (clamp x lo (max lo m)) lo (max lo m) = clamp x lo (max lo m)"
  by (simp add: clamp_def min_def max_def)

lemma isHidden_geom [simp]:
  "isHidden v (e\<lparr>style_width := w\<rparr>) = isHidden v e"
  "isHidden v (e\<lparr>style_height := h\<rparr>) = isHidden v e"
  "isHidden v (e\<lparr>style_left := l\<rparr>) = isHidden v e"
  "isHidden v (e\<lparr>style_top := t\<rparr>) = isHidden v e"
  by (simp_all add: isHidden_def)

lemma rect_shown:
  "\<not> cls_maximized e \<Longrightarrow> \<not> isHidden v e \<Longrightarrow>
   getBoundingClientRect v e =
     \<lparr>r_left = desktopLeft v + style_left e, r_top = desktopTop v + style_top e,
      r_width = style_width e, r_height = style_height e\<rparr>"
  by (simp add: getBoundingClientRect_def)

lemma ensure_shown:
  assumes "\<not> cls_maximized e" "\<not> isHidden v e"
  shows "ensureWindowInViewport v s e =
     e\<lparr>style_width := fitWidth v s (style_width e),
       style_height := fitHeight v s (style_height e),
       style_left := clamp (style_left e) (viewportPadding s)
          (max (viewportPadding s)
             (clientWidth v - fitWidth v s (style_width e) - viewportPadding s)),
       style_top := clamp (style_top e) (menuBarHeight s + viewportPadding s)
          (max (menuBarHeight s + viewportPadding s)
             (clientHeight v - fitHeight v s (style_height e) - viewportPadding s))\<rparr>"
  using assms
  by (simp add: ensureWindowInViewport_def Let_def rect_shown fitWidth_def fitHeight_def)

lemma ensure_skipped:
  "cls_maximized e \<or> isHidden v e \<Longrightarrow> ensureWindowInViewport v s e = e"
  by (simp add: ensureWindowInViewport_def)

lemma fitWidth_idem: "fitWidth v s (fitWidth v s w) = fitWidth v s w"
  by (simp add: fitWidth_def)

lemma fitHeight_idem: "fitHeight v s (fitHeight v s h) = fitHeight v s h"
  by (simp add: fitHeight_def)

lemma unknown_name_ignored:
  assumes "lookupWindow s n = Undefined"
  shows "openWindow v s n = Returned s" "closeWindow v s n = Returned s"
    "minimizeWindow v s n = Returned s" "maximizeWindow v s n = Returned s"
    "toggleWindow v s n = Returned s" "bringToFront s n = Returned s"
  using assms
  by (simp_all add: openWindow_def closeWindow_def minimizeWindow_def maximizeWindow_def
      toggleWindow_def bringToFront_def)

lemma lookup_own: "windows s n = Some wd \<Longrightarrow> lookupWindow s n = Own wd"
  by (simp add: lookupWindow_def)

lemma state_of_andThen:
  "state_of (andThen r f) =
     (case r of Returned s \<Rightarrow> state_of (f s) | TypeError s \<Rightarrow> s | SyntaxError s \<Rightarrow> s)"
  by (cases r) simp_all

lemma aw_updateDockIcon [simp]:
  "activeWindow (state_of (updateDockIcon v s n b)) = activeWindow s"
  by (simp add: updateDockIcon_def split: query.splits option.splits)

lemma aw_mapElement [simp]: "activeWindow (mapElement n f s) = activeWindow s"
  by (simp add: mapElement_def split: option.splits)

lemma aw_close: "activeWindow (state_of (closeWindow v s n)) = activeWindow s"
  by (simp add: closeWindow_def split: lookup.splits)

lemma aw_minimize: "activeWindow (state_of (minimizeWindow v s n)) = activeWindow s"
  by (simp add: minimizeWindow_def split: lookup.splits)

lemma aw_maximize: "activeWindow (state_of (maximizeWindow v s n)) = activeWindow s"
  by (simp add: maximizeWindow_def Let_def split: lookup.splits)

lemma aw_bringToFront:
  "activeWindow (state_of (bringToFront s n)) = activeWindow s \<or>
   activeWindow (state_of (bringToFront s n)) = Some n"
  by (simp add: bringToFront_def split: lookup.splits)

lemma aw_open:
  "activeWindow (state_of (openWindow v s n)) = activeWindow s \<or>
   activeWindow (state_of (openWindow v s n)) = Some n"
  by (simp add: openWindow_def bringToFront_def lookupWindow_def Let_def split: lookup.splits option.splits)

lemma aw_toggle:
  "activeWindow (state_of (toggleWindow v s n)) = activeWindow s \<or>
   activeWindow (state_of (toggleWindow v s n)) = Some n"
  using aw_open [of v s n] aw_bringToFront [of s n]
  by (simp add: toggleWindow_def split: lookup.splits wstate.splits)

lemma aw_title:
  "activeWindow (state_of (titleMouseDown v s n c x y)) = activeWindow s \<or>
   (\<not> c \<and> activeWindow (state_of (titleMouseDown v s n c x y)) = Some n)"
  by (simp add: titleMouseDown_def bringToFront_def lookupWindow_def Let_def split: option.splits)

lemma aw_handleDown:
  "activeWindow (state_of (handleMouseDown v s n d x y)) = activeWindow s \<or>
   activeWindow (state_of (handleMouseDown v s n d x y)) = Some n"
  by (simp add: handleMouseDown_def bringToFront_def lookupWindow_def Let_def split: option.splits)

lemma aw_handleResize: "activeWindow (state_of (handleResize v s x y)) = activeWindow s"
  by (simp add: handleResize_def Let_def split: lookup.splits option.splits)

lemma aw_andThen:
  "(\<And>s'. activeWindow (state_of (f s')) = activeWindow s') \<Longrightarrow>
   activeWindow (state_of (andThen r f)) = activeWindow (state_of r)"
  by (cases r) simp_all

lemma aw_mouseMove: "activeWindow (state_of (mouseMove v s x y)) = activeWindow s"
  by (simp add: mouseMove_def aw_handleResize aw_andThen aw_maximize Let_def
      split: lookup.splits option.splits)

lemma aw_mouseUp: "activeWindow (mouseUp s) = activeWindow s"
  by (simp add: mouseUp_def Let_def)

lemma aw_ensureAll: "activeWindow (ensureAllWindowsInViewport v s) = activeWindow s"
  by (simp add: ensureAllWindowsInViewport_def)

lemma ensure_classes [simp]:
  "cls_active (ensureWindowInViewport v s e) = cls_active e"
  "cls_maximized (ensureWindowInViewport v s e) = cls_maximized e"
  "cls_minimized (ensureWindowInViewport v s e) = cls_minimized e"
  "style_zIndex (ensureWindowInViewport v s e) = style_zIndex e"
  by (cases "cls_maximized e \<or> isHidden v e"; simp add: ensure_skipped ensure_shown)+


lemma restored_classes [simp]:
  "cls_active (restoredElement wd) = cls_active (element wd)"
  "cls_maximized (restoredElement wd) = False"
  "cls_minimized (restoredElement wd) = cls_minimized (element wd)"
  "style_zIndex (restoredElement wd) = style_zIndex (element wd)"
  by (simp_all add: restoredElement_def Let_def)

lemma maximize_restore:
  assumes "windows s n = Some wd" "cls_maximized (element wd)"
  shows "maximizeWindow v s n = Returned (s\<lparr>windows := (windows s)(n \<mapsto>
           wd\<lparr>element := ensureWindowInViewport v s (restoredElement wd)\<rparr>)\<rparr>)"
  using assms by (simp add: maximizeWindow_def lookup_own restoredElement_def Let_def)

lemma maximize_capture:
  assumes "windows s n = Some wd" "\<not> cls_maximized (element wd)"
  shows "maximizeWindow v s n = Returned (s\<lparr>windows := (windows s)(n \<mapsto>
           wd\<lparr>originalPosition := \<lparr>p_x = r_left (getBoundingClientRect v (element wd)),
                                    p_y = r_top (getBoundingClientRect v (element wd))\<rparr>,
              originalSize := \<lparr>e_width = r_width (getBoundingClientRect v (element wd)),
                               e_height = r_height (getBoundingClientRect v (element wd))\<rparr>,
              element := (element wd)\<lparr>cls_maximized := True\<rparr>\<rparr>)\<rparr>)"
  using assms by (simp add: maximizeWindow_def lookup_own Let_def)

lemma offset_moved [simp]:
  "offsetWidth v (e\<lparr>style_left := l, style_top := t\<rparr>) = offsetWidth v e"
  "offsetHeight v (e\<lparr>style_left := l, style_top := t\<rparr>) = offsetHeight v e"
  by (simp_all add: offsetWidth_def offsetHeight_def getBoundingClientRect_def)






lemma bringToFront_registered:
  assumes "windows s n = Some wd"
  shows "bringToFront s n = Returned (s\<lparr>maxZIndex := maxZIndex s + 1,
                      activeWindow := Some n,
                      windows := (\<lambda>m. map_option
                        (\<lambda>wd. if m = n
                               then wd\<lparr>element := (element wd)
                                      \<lparr>cls_active := True,
                                       style_zIndex := Some (maxZIndex s + 1)\<rparr>\<rparr>
                               else wd\<lparr>element := (element wd)\<lparr>cls_active := False\<rparr>\<rparr>)
                        (windows s m))\<rparr>)"
  using assms by (simp add: bringToFront_def lookup_own)


section \<open>Effects on focus and stacking\<close>

lemmas views = isActive_def stackOrder_def isMinimized_def

lemma lowered_refl: "lowered s s"
  by (simp add: lowered_def)

lemma lowered_invariant:
  assumes "focusInvariant s" "counterBounds s" "lowered s s'"
  shows "focusInvariant s' \<and> counterBounds s'"
proof -
  have a: "\<And>m. isActive s' m \<Longrightarrow> isActive s m" and st: "stackOrder s' = stackOrder s"
    and z: "maxZIndex s \<le> maxZIndex s'"
    and mi: "\<And>m. isMinimized s' m \<Longrightarrow> isMinimized s m \<or> \<not> isActive s' m"
    using assms(3) by (auto simp: lowered_def)
  have one: "atMostOneActive s'"
    using assms(1) a by (auto simp: focusInvariant_def atMostOneActive_def)
  have top: "activeOnTop s'"
    using assms(1) a st unfolding focusInvariant_def activeOnTop_def by metis
  have mn: "minimizedNotActive s'"
    using assms(1) a mi unfolding focusInvariant_def minimizedNotActive_def by blast
  have cb: "counterBounds s'"
    using assms(2) st z unfolding counterBounds_def by fastforce
  show ?thesis using one top mn cb by (simp add: focusInvariant_def)
qed

lemma raised_invariant:
  assumes "counterBounds s" "raised s n s'" "\<not> isMinimized s' n"
  shows "focusInvariant s' \<and> counterBounds s'"
proof -
  have a: "isActive s' = (\<lambda>m. m = n)"
    and st: "stackOrder s' = (stackOrder s)(n := Some (maxZIndex s + 1))"
    and z: "maxZIndex s' = maxZIndex s + 1"
    using assms(2) by (auto simp: raised_def)
  have b: "\<And>m z. stackOrder s m = Some z \<Longrightarrow> z \<le> maxZIndex s"
    using assms(1) by (simp add: counterBounds_def)
  have one: "atMostOneActive s'" by (simp add: atMostOneActive_def a)
  have top: "activeOnTop s'"
    unfolding activeOnTop_def
  proof (intro allI impI)
    fix k m j assume h: "isActive s' k \<and> stackOrder s' m = Some j"
    then have k: "k = n" by (simp add: a)
    have "j \<le> maxZIndex s + 1"
    proof (cases "m = n")
      case True
      with h show ?thesis by (simp add: st)
    next
      case False
      with h have "stackOrder s m = Some j" by (simp add: st)
      from b [OF this] show ?thesis by simp
    qed
    then show "\<exists>zn. stackOrder s' k = Some zn \<and> j \<le> zn" by (simp add: k st)
  qed
  have mn: "minimizedNotActive s'"
    using assms(3) by (auto simp: minimizedNotActive_def a)
  have cb: "counterBounds s'"
    unfolding counterBounds_def
  proof (intro allI impI)
    fix m k assume h: "stackOrder s' m = Some k"
    show "k \<le> maxZIndex s'"
    proof (cases "m = n")
      case True
      with h show ?thesis by (simp add: st z)
    next
      case False
      with h have "stackOrder s m = Some k" by (simp add: st)
      from b [OF this] show ?thesis by (simp add: z)
    qed
  qed
  show ?thesis using one top mn cb by (simp add: focusInvariant_def)
qed

lemma windows_updateDockIcon [simp]:
  "windows (state_of (updateDockIcon v s n b)) = windows s"
  by (simp add: updateDockIcon_def split: query.splits option.splits)

lemma maxZIndex_updateDockIcon [simp]:
  "maxZIndex (state_of (updateDockIcon v s n b)) = maxZIndex s"
  by (simp add: updateDockIcon_def split: query.splits option.splits)

lemma views_updateDockIcon [simp]:
  "isActive (state_of (updateDockIcon v s n b)) = isActive s"
  "stackOrder (state_of (updateDockIcon v s n b)) = stackOrder s"
  "isMinimized (state_of (updateDockIcon v s n b)) = isMinimized s"
  by (simp_all add: views fun_eq_iff)

lemma views_mapElement:
  assumes "\<And>e. cls_active (f e) = cls_active e" "\<And>e. style_zIndex (f e) = style_zIndex e"
  shows "isActive (mapElement n f s) = isActive s"
    "stackOrder (mapElement n f s) = stackOrder s"
    "isMinimized (mapElement n f s) = isMinimized s"
    "maxZIndex (mapElement n f s) = maxZIndex s"
  using assms by (auto simp: views mapElement_def fun_eq_iff split: option.splits)

lemma lowered_close: "lowered s (state_of (closeWindow v s n))"
  by (auto simp: closeWindow_def lowered_def views fun_eq_iff lookupWindow_def
      split: option.splits)

lemma lowered_minimize: "lowered s (state_of (minimizeWindow v s n))"
  by (auto simp: minimizeWindow_def lowered_def views fun_eq_iff lookupWindow_def
      split: option.splits)

lemma lowered_maximize: "lowered s (state_of (maximizeWindow v s n))"
proof (cases "windows s n")
  case None
  then show ?thesis
    by (simp add: maximizeWindow_def lookupWindow_def lowered_refl)
next
  case (Some wd)
  then show ?thesis
    by (cases "cls_maximized (element wd)")
       (auto simp: maximize_restore maximize_capture lowered_def views fun_eq_iff)
qed

lemma raised_bringToFront:
  assumes "windows s n = Some wd"
  shows "raised s n (state_of (bringToFront s n))"
  using assms
  by (auto simp: bringToFront_registered raised_def views fun_eq_iff split: option.splits)

lemma lowered_bringToFront:
  assumes "windows s n = None"
  shows "lowered s (state_of (bringToFront s n))"
  using assms
  by (auto simp: bringToFront_def lookupWindow_def lowered_def views)


lemma lowered_of_views:
  assumes "isActive s' = isActive s" "stackOrder s' = stackOrder s"
    "isMinimized s' = isMinimized s" "maxZIndex s' = maxZIndex s"
  shows "lowered s s'"
  using assms by (simp add: lowered_def)

lemma lowered_trans:
  assumes "lowered s s1" "lowered s1 s2"
  shows "lowered s s2"
  using assms unfolding lowered_def by (metis order_trans)

lemma raised_views:
  assumes "raised s n s1" "isActive s2 = isActive s1" "stackOrder s2 = stackOrder s1"
    "isMinimized s2 = isMinimized s1" "maxZIndex s2 = maxZIndex s1"
  shows "raised s n s2"
  using assms by (simp add: raised_def)

lemma lowered_andThen:
  assumes "lowered s (state_of r)" "\<And>s1. lowered s1 (state_of (f s1))"
  shows "lowered s (state_of (andThen r f))"
proof (cases r)
  case (Returned s1)
  with assms(1) have "lowered s s1" by simp
  from lowered_trans [OF this assms(2)] Returned show ?thesis by simp
next
  case (TypeError s1)
  with assms(1) show ?thesis by simp
next
  case (SyntaxError s1)
  with assms(1) show ?thesis by simp
qed

lemma lowered_counterBounds:
  assumes "counterBounds s" "lowered s s'"
  shows "counterBounds s'"
  using assms unfolding counterBounds_def lowered_def by fastforce

lemma raised_counterBounds:
  assumes "counterBounds s" "raised s n s'"
  shows "counterBounds s'"
  unfolding counterBounds_def
proof (intro allI impI)
  have st: "stackOrder s' = (stackOrder s)(n := Some (maxZIndex s + 1))"
    and z: "maxZIndex s' = maxZIndex s + 1"
    using assms(2) by (auto simp: raised_def)
  fix m k assume h: "stackOrder s' m = Some k"
  show "k \<le> maxZIndex s'"
  proof (cases "m = n")
    case True
    with h show ?thesis by (simp add: st z)
  next
    case False
    with h have "stackOrder s m = Some k" by (simp add: st)
    with assms(1) have "k \<le> maxZIndex s" by (simp add: counterBounds_def)
    then show ?thesis by (simp add: z)
  qed
qed

lemma open_effect:
  "lowered s (state_of (openWindow v s n)) \<or>
   (raised s n (state_of (openWindow v s n)) \<and> \<not> isMinimized (state_of (openWindow v s n)) n)"
proof (cases "windows s n")
  case None
  then show ?thesis
    using lowered_bringToFront [OF None]
    by (simp add: openWindow_def lookupWindow_def lowered_refl)
next
  case (Some wd)
  define wd1 where "wd1 = (if state wd = Minimized
     then wd\<lparr>element := (element wd)\<lparr>cls_minimized := False\<rparr>, state := Open\<rparr> else wd)"
  define wd2 where "wd2 = (if state wd1 = Closed
     then wd1\<lparr>element := (element wd1)\<lparr>cls_active := True\<rparr>, state := Open\<rparr> else wd1)"
  define s1 where "s1 = s\<lparr>windows := (windows s)(n \<mapsto> wd2)\<rparr>"
  define s2 where "s2 = state_of (bringToFront s1 n)"
  have w1: "windows s1 n = Some wd2" by (simp add: s1_def)
  have b: "bringToFront s1 n = Returned s2"
    using bringToFront_registered [OF w1] by (simp add: s2_def)
  have r1: "raised s1 n s2"
    using raised_bringToFront [OF w1] by (simp add: s2_def)
  have z2: "style_zIndex (element wd2) = style_zIndex (element wd)"
    by (simp add: wd2_def wd1_def)
  have m2: "state wd2 \<noteq> Minimized"
    by (simp add: wd2_def wd1_def)
  have so: "stackOrder s1 = stackOrder s"
    using Some z2 by (auto simp: s1_def stackOrder_def fun_eq_iff)
  have mz: "maxZIndex s1 = maxZIndex s" by (simp add: s1_def)
  have mi: "\<And>m. isMinimized s1 m \<Longrightarrow> isMinimized s m \<and> m \<noteq> n"
    using m2 by (auto simp: s1_def isMinimized_def split: if_splits)
  have r2: "raised s n s2" and nm: "\<not> isMinimized s2 n"
    using r1 so mz mi by (auto simp: raised_def)
  have "openWindow v s n = andThen (bringToFront s1 n)
      (\<lambda>s2. updateDockIcon v (mapElement n (ensureWindowInViewport v s2) s2) n True)"
    using Some by (simp add: openWindow_def lookup_own Let_def s1_def wd2_def wd1_def)
  then have o: "state_of (openWindow v s n) =
      state_of (updateDockIcon v (mapElement n (ensureWindowInViewport v s2) s2) n True)"
    by (simp add: b)
  have "raised s n (state_of (openWindow v s n))"
    by (rule raised_views [OF r2]) (simp_all add: o views_mapElement)
  moreover have "\<not> isMinimized (state_of (openWindow v s n)) n"
    using nm by (simp add: o views_mapElement)
  ultimately show ?thesis by simp
qed

lemma toggle_effect:
  "lowered s (state_of (toggleWindow v s n)) \<or>
   (raised s n (state_of (toggleWindow v s n)) \<and> \<not> isMinimized (state_of (toggleWindow v s n)) n)"
proof (cases "windows s n")
  case None
  then show ?thesis
    by (simp add: toggleWindow_def lookupWindow_def lowered_refl)
next
  case (Some wd)
  show ?thesis
  proof (cases "state wd = Closed \<or> state wd = Minimized")
    case True
    then have "toggleWindow v s n = openWindow v s n"
      using Some by (auto simp: toggleWindow_def lookup_own)
    then show ?thesis using open_effect [of s v n] by simp
  next
    case False
    then have t: "toggleWindow v s n = bringToFront s n"
      using Some by (cases "state wd") (simp_all add: toggleWindow_def lookup_own)
    have nm: "\<not> isMinimized s n" using Some False by (simp add: isMinimized_def)
    have r: "raised s n (state_of (bringToFront s n))" by (rule raised_bringToFront [OF Some])
    then have "\<not> isMinimized (state_of (bringToFront s n)) n"
      using nm by (auto simp: raised_def)
    with r t show ?thesis by simp
  qed
qed

lemma title_effect:
  "lowered s (state_of (titleMouseDown v s n c x y)) \<or>
   (\<not> c \<and> raised s n (state_of (titleMouseDown v s n c x y)))"
proof (cases "c \<or> windows s n = None")
  case True
  then show ?thesis by (auto simp: titleMouseDown_def lowered_refl)
next
  case False
  then obtain wd where Some: "windows s n = Some wd" and c: "\<not> c" by auto
  define s2 where "s2 = state_of (bringToFront s n)"
  have b: "bringToFront s n = Returned s2"
    using bringToFront_registered [OF Some] by (simp add: s2_def)
  have r: "raised s n s2" using raised_bringToFront [OF Some] by (simp add: s2_def)
  have "raised s n (state_of (titleMouseDown v s n c x y))"
    by (rule raised_views [OF r])
       (auto simp: titleMouseDown_def Some c b Let_def views fun_eq_iff split: option.splits)
  with c show ?thesis by simp
qed

lemma handleDown_effect:
  "lowered s (state_of (handleMouseDown v s n d x y)) \<or>
   raised s n (state_of (handleMouseDown v s n d x y))"
proof (cases "windows s n")
  case None
  then show ?thesis by (simp add: handleMouseDown_def lowered_refl)
next
  case (Some wd)
  show ?thesis
  proof (cases "cls_maximized (element wd)")
    case True
    with Some show ?thesis by (simp add: handleMouseDown_def lowered_refl)
  next
    case False
    define s2 where "s2 = state_of (bringToFront s n)"
    have b: "bringToFront s n = Returned s2"
      using bringToFront_registered [OF Some] by (simp add: s2_def)
    have r: "raised s n s2" using raised_bringToFront [OF Some] by (simp add: s2_def)
    have "raised s n (state_of (handleMouseDown v s n d x y))"
      by (rule raised_views [OF r])
         (auto simp: handleMouseDown_def Some False b Let_def views fun_eq_iff
            split: option.splits)
    then show ?thesis by simp
  qed
qed

lemma lowered_handleResize: "lowered s (state_of (handleResize v s x y))"
  by (rule lowered_of_views)
     (auto simp: handleResize_def Let_def views fun_eq_iff lookupWindow_def
        split: option.splits)

lemma lowered_mapElement:
  assumes "\<And>e. cls_active (f e) = cls_active e" "\<And>e. style_zIndex (f e) = style_zIndex e"
  shows "lowered s (mapElement n f s)"
  by (rule lowered_of_views) (simp_all add: views_mapElement assms)

lemma lowered_dragOffset: "lowered s (s\<lparr>dragOffset := p\<rparr>)"
  by (rule lowered_of_views) (simp_all add: views fun_eq_iff)

lemma lowered_mouseMove: "lowered s (state_of (mouseMove v s x y))"
  by (auto simp: mouseMove_def lowered_handleResize lowered_refl lowered_maximize
      lowered_dragOffset Let_def
      intro!: lowered_andThen lowered_mapElement
      split: option.splits lookup.splits)

lemma lowered_mouseUp: "lowered s (mouseUp s)"
  by (rule lowered_of_views) (simp_all add: mouseUp_def Let_def views fun_eq_iff)

lemma lowered_ensureAll: "lowered s (ensureAllWindowsInViewport v s)"
  by (rule lowered_of_views)
     (auto simp: ensureAllWindowsInViewport_def views fun_eq_iff split: option.splits)

lemma exec_effect:
  "lowered s (exec v s ev) \<or>
   (\<exists>n. raised s n (exec v s ev) \<and> (raisesAsIs ev = Some n \<or> \<not> isMinimized (exec v s ev) n))"
proof (cases ev)
  case (OpenWindow n) then show ?thesis using open_effect [of s v n] by (auto simp: exec_def)
next
  case (CloseWindow n) then show ?thesis by (simp add: exec_def lowered_close)
next
  case (MinimizeWindow n) then show ?thesis by (simp add: exec_def lowered_minimize)
next
  case (MaximizeWindow n) then show ?thesis by (simp add: exec_def lowered_maximize)
next
  case (ToggleWindow n) then show ?thesis using toggle_effect [of s v n] by (auto simp: exec_def)
next
  case (BringToFront n)
  then show ?thesis
    using raised_bringToFront [of s n] lowered_bringToFront [of s n]
    by (cases "windows s n") (auto simp: exec_def)
next
  case (TitleMouseDown n c x y)
  then show ?thesis using title_effect [of s v n c x y] by (auto simp: exec_def)
next
  case (HandleMouseDown n d x y)
  then show ?thesis using handleDown_effect [of s v n d x y] by (auto simp: exec_def)
next
  case (MouseMove x y) then show ?thesis by (simp add: exec_def lowered_mouseMove)
next
  case MouseUp then show ?thesis by (simp add: exec_def lowered_mouseUp)
next
  case ViewportResize then show ?thesis by (simp add: exec_def lowered_ensureAll)
qed

lemma exec_cases:
  obtains (low) "lowered s (exec v s ev)"
  | (up) n where "raised s n (exec v s ev)"
      "raisesAsIs ev = Some n \<or> \<not> isMinimized (exec v s ev) n"
  using exec_effect [of s v ev] by blast

lemma exec_preserves:
  assumes "focusInvariant s" "counterBounds s"
    and "\<And>n. raisesAsIs ev = Some n \<Longrightarrow> \<not> isMinimized s n"
  shows "focusInvariant (exec v s ev) \<and> counterBounds (exec v s ev)"
proof (cases rule: exec_cases [of s v ev])
  case low
  then show ?thesis by (rule lowered_invariant [OF assms(1,2)])
next
  case (up n)
  have "\<not> isMinimized (exec v s ev) n"
    using up assms(3) by (auto simp: raised_def)
  then show ?thesis by (rule raised_invariant [OF assms(2) up(1)])
qed

lemma exec_counterBounds:
  assumes "counterBounds s"
  shows "counterBounds (exec v s ev)"
proof (cases rule: exec_cases [of s v ev])
  case low
  then show ?thesis by (rule lowered_counterBounds [OF assms])
next
  case (up n)
  from raised_counterBounds [OF assms up(1)] show ?thesis .
qed

lemma exec_counter_mono: "maxZIndex s \<le> maxZIndex (exec v s ev)"
proof (cases rule: exec_cases [of s v ev])
  case low
  then show ?thesis by (simp add: lowered_def)
next
  case (up n)
  then show ?thesis by (simp add: raised_def)
qed

lemma exec_fresh:
  assumes "stackOrder (exec v s ev) m = Some z" "stackOrder s m \<noteq> Some z"
  shows "z = maxZIndex s + 1"
proof (cases rule: exec_cases [of s v ev])
  case low
  then have "stackOrder (exec v s ev) = stackOrder s" by (simp add: lowered_def)
  with assms show ?thesis by simp
next
  case (up n)
  then have st: "stackOrder (exec v s ev) = (stackOrder s)(n := Some (maxZIndex s + 1))"
    by (simp add: raised_def)
  show ?thesis
  proof (cases "m = n")
    case True
    with assms(1) show ?thesis by (simp add: st)
  next
    case False
    with assms show ?thesis by (simp add: st)
  qed
qed

lemma run_counter:
  assumes "counterBounds s"
  shows "counterBounds (run s evs) \<and> maxZIndex s \<le> maxZIndex (run s evs)"
  using assms
proof (induction evs arbitrary: s)
  case Nil
  then show ?case by simp
next
  case (Cons ve evs)
  have c: "counterBounds (exec (fst ve) s (snd ve))"
    by (rule exec_counterBounds [OF Cons.prems])
  have m: "maxZIndex s \<le> maxZIndex (exec (fst ve) s (snd ve))"
    by (rule exec_counter_mono)
  from Cons.IH [OF c] m show ?case by simp
qed


lemma page_invariant: "focusInvariant page \<and> counterBounds page"
  by (auto simp: focusInvariant_def atMostOneActive_def activeOnTop_def minimizedNotActive_def
      counterBounds_def views concrete split: if_splits)

lemma registered_of_active: "isActive s n \<Longrightarrow> \<exists>wd. windows s n = Some wd"
  by (simp add: isActive_def split: option.splits)

lemma views_register:
  "isActive (register s ne) = (isActive s)(fst ne := cls_active (snd ne))"
  "stackOrder (register s ne) = (stackOrder s)(fst ne := style_zIndex (snd ne))"
  "isMinimized (register s ne) = (isMinimized s)(fst ne := False)"
  "maxZIndex (register s ne) = maxZIndex s"
  by (auto simp: views register_def fun_eq_iff)

lemma registered_counterBounds:
  assumes "counterBounds s"
    and "\<forall>ne\<in>set elements. \<forall>z. style_zIndex (snd ne) = Some z \<longrightarrow> z \<le> maxZIndex s"
  shows "counterBounds (foldl register s elements) \<and>
         maxZIndex (foldl register s elements) = maxZIndex s"
  using assms
proof (induction elements arbitrary: s)
  case Nil
  then show ?case by simp
next
  case (Cons ne elements)
  have c: "counterBounds (register s ne)"
    using Cons.prems by (auto simp: counterBounds_def views_register)
  have b: "\<forall>ne\<in>set elements. \<forall>z. style_zIndex (snd ne) = Some z \<longrightarrow> z \<le> maxZIndex (register s ne)"
    using Cons.prems(2) by (simp add: views_register)
  from Cons.IH [of "register s ne"] c b show ?case by (simp add: views_register)
qed

lemma registered_inactive:
  assumes "\<forall>n. \<not> isActive s n" "\<forall>ne\<in>set elements. \<not> cls_active (snd ne)"
  shows "\<forall>n. \<not> isActive (foldl register s elements) n"
  using assms
proof (induction elements arbitrary: s)
  case Nil
  then show ?case by simp
next
  case (Cons ne elements)
  have "\<forall>n. \<not> isActive (register s ne) n"
    using Cons.prems by (simp add: views_register)
  from Cons.IH [OF this] Cons.prems(2) show ?case by simp
qed

lemma inactive_invariant:
  assumes "\<forall>n. \<not> isActive s n"
  shows "focusInvariant s"
  using assms
  by (simp add: focusInvariant_def atMostOneActive_def activeOnTop_def minimizedNotActive_def)

lemma constructor_views:
  "counterBounds (constructor icons)" "\<forall>n. \<not> isActive (constructor icons) n"
  "counterBounds ((constructor icons)\<lparr>menuBarHeight := h\<rparr>)"
  "\<forall>n. \<not> isActive ((constructor icons)\<lparr>menuBarHeight := h\<rparr>) n"
  "maxZIndex (constructor icons) = 200" "maxZIndex ((constructor icons)\<lparr>menuBarHeight := h\<rparr>) = 200"
  by (simp_all add: counterBounds_def views constructor_def)

lemma init_eq:
  "init v menuBar elements icons =
     exec v (exec v (foldl register
       (case menuBar of None \<Rightarrow> constructor icons
        | Some h \<Rightarrow> (constructor icons)\<lparr>menuBarHeight := h\<rparr>) elements) ViewportResize)
       (OpenWindow ''about'')"
  by (simp add: init_def Let_def exec_def)

lemma init_counterBounds:
  assumes "\<forall>ne\<in>set elements. \<forall>z. style_zIndex (snd ne) = Some z \<longrightarrow> z \<le> 200"
  shows "counterBounds (init v menuBar elements icons) \<and>
         200 \<le> maxZIndex (init v menuBar elements icons)"
proof -
  let ?s0 = "case menuBar of None \<Rightarrow> constructor icons
        | Some h \<Rightarrow> (constructor icons)\<lparr>menuBarHeight := h\<rparr>"
  have c0: "counterBounds ?s0" and z0: "maxZIndex ?s0 = 200"
    by (simp_all add: constructor_views split: option.splits)
  have r: "counterBounds (foldl register ?s0 elements) \<and>
         maxZIndex (foldl register ?s0 elements) = maxZIndex ?s0"
    by (rule registered_counterBounds [OF c0]) (use assms z0 in simp)
  have c1: "counterBounds (exec v (foldl register ?s0 elements) ViewportResize)"
    by (rule exec_counterBounds) (use r in simp)
  have c2: "counterBounds (init v menuBar elements icons)"
    unfolding init_eq by (rule exec_counterBounds [OF c1])
  have "200 \<le> maxZIndex (exec v (foldl register ?s0 elements) ViewportResize)"
    using exec_counter_mono [of "foldl register ?s0 elements" v ViewportResize] r z0 by simp
  then have "200 \<le> maxZIndex (init v menuBar elements icons)"
    unfolding init_eq
    using exec_counter_mono [of "exec v (foldl register ?s0 elements) ViewportResize" v
        "OpenWindow ''about''"]
    by simp
  with c2 show ?thesis by simp
qed

lemma init_invariant:
  assumes "\<forall>ne\<in>set elements. style_zIndex (snd ne) = None \<and> \<not> cls_active (snd ne)"
  shows "focusInvariant (init v menuBar elements icons) \<and>
         counterBounds (init v menuBar elements icons)"
proof -
  let ?s0 = "case menuBar of None \<Rightarrow> constructor icons
        | Some h \<Rightarrow> (constructor icons)\<lparr>menuBarHeight := h\<rparr>"
  let ?s1 = "foldl register ?s0 elements"
  have c0: "counterBounds ?s0" and a0: "\<forall>n. \<not> isActive ?s0 n"
    by (simp_all add: constructor_views split: option.splits)
  have c1: "counterBounds ?s1"
    using registered_counterBounds [OF c0, of elements] assms by simp
  have i1: "focusInvariant ?s1"
    by (rule inactive_invariant, rule registered_inactive [OF a0]) (use assms in simp)
  have s2: "focusInvariant (exec v ?s1 ViewportResize) \<and> counterBounds (exec v ?s1 ViewportResize)"
    by (rule exec_preserves [OF i1 c1]) simp
  show ?thesis
    unfolding init_eq
    by (rule exec_preserves [OF conjunct1 [OF s2] conjunct2 [OF s2]]) simp
qed

lemma desktop_invariant: "focusInvariant desktop \<and> counterBounds desktop"
  unfolding desktop_def
  by (rule init_invariant) (simp add: desktopWindows_def notesElement_def aboutElement_def)

lemma bothOpen_invariant: "focusInvariant bothOpen \<and> counterBounds bothOpen"
  unfolding bothOpen_def run.simps fst_conv snd_conv
  by (rule exec_preserves [OF conjunct1 [OF desktop_invariant] conjunct2 [OF desktop_invariant]])
     simp

lemma minimizedPage_invariant: "focusInvariant minimizedPage \<and> counterBounds minimizedPage"
proof -
  let ?d = "desk 1200 800"
  have i: "focusInvariant page" and c: "counterBounds page" using page_invariant by simp_all
  have s1: "focusInvariant (exec ?d page (OpenWindow ''about'')) \<and>
            counterBounds (exec ?d page (OpenWindow ''about''))"
    by (rule exec_preserves [OF i c]) simp
  show ?thesis
    unfolding minimizedPage_def run.simps fst_conv snd_conv
    by (rule exec_preserves [OF conjunct1 [OF s1] conjunct2 [OF s1]]) simp
qed

lemma raised_stack:
  assumes "counterBounds s" "raised s n s'"
  shows "atMostOneActive s' \<and> activeOnTop s'"
proof -
  have a: "isActive s' = (\<lambda>m. m = n)"
    and st: "stackOrder s' = (stackOrder s)(n := Some (maxZIndex s + 1))"
    using assms(2) by (auto simp: raised_def)
  have b: "\<And>m z. stackOrder s m = Some z \<Longrightarrow> z \<le> maxZIndex s"
    using assms(1) by (simp add: counterBounds_def)
  have one: "atMostOneActive s'" by (simp add: atMostOneActive_def a)
  have top: "activeOnTop s'"
    unfolding activeOnTop_def
  proof (intro allI impI)
    fix k m j assume h: "isActive s' k \<and> stackOrder s' m = Some j"
    then have k: "k = n" by (simp add: a)
    have "j \<le> maxZIndex s + 1"
    proof (cases "m = n")
      case True
      with h show ?thesis by (simp add: st)
    next
      case False
      with h have "stackOrder s m = Some j" by (simp add: st)
      from b [OF this] show ?thesis by simp
    qed
    then show "\<exists>zn. stackOrder s' k = Some zn \<and> j \<le> zn" by (simp add: k st)
  qed
  show ?thesis using one top by simp
qed

lemma exec_stack:
  assumes "focusInvariant s" "counterBounds s"
  shows "atMostOneActive (exec v s ev) \<and> activeOnTop (exec v s ev) \<and> counterBounds (exec v s ev)"
proof (cases rule: exec_cases [of s v ev])
  case low
  from lowered_invariant [OF assms low] show ?thesis by (simp add: focusInvariant_def)
next
  case (up n)
  from raised_stack [OF assms(2) up(1)] raised_counterBounds [OF assms(2) up(1)]
  show ?thesis by simp
qed

lemma bringToFront_minimized:
  assumes "windows s n = Some wd" "state wd = Minimized"
  shows "isActive (exec v s (BringToFront n)) n \<and> isMinimized (exec v s (BringToFront n)) n"
  using assms by (simp add: exec_def bringToFront_registered views)

lemma minimize_registered:
  assumes "windows s n = Some wd"
  shows "\<exists>wd'. windows (state_of (minimizeWindow v s n)) n = Some wd' \<and> state wd' = Minimized"
  using assms by (simp add: minimizeWindow_def lookup_own)

lemma minimize_plain_name:
  assumes "windows s n = Some wd" "list_all plainChar n"
  shows "\<exists>s' wd'. minimizeWindow v s n = Returned s' \<and> windows s' n = Some wd' \<and>
           state wd' = Minimized \<and>
           dock s' n = (case dock s n of None \<Rightarrow> None | Some b \<Rightarrow> Some True)"
  using assms
  by (simp add: minimizeWindow_def lookup_own updateDockIcon_def querySelectorDockIcon_def
      split: option.splits)

section \<open>Viewport containment\<close>

text \<open>
  C6: for every window and every viewport, a second containment pass
  (\<open>ensureWindowInViewport\<close>) right after a first one, in the same viewport, changes nothing:
  the element after the second pass is the element after the first.
\<close>

theorem ensureWindowInViewport_idempotent:
  "ensureWindowInViewport v s (ensureWindowInViewport v s e) = ensureWindowInViewport v s e"
proof (cases "cls_maximized e \<or> isHidden v e")
  case True
  then show ?thesis by (simp add: ensure_skipped)
next
  case False
  let ?e1 = "ensureWindowInViewport v s e"
  have shown: "\<not> cls_maximized e" "\<not> isHidden v e" using False by simp_all
  note e1 = ensure_shown [OF shown, of s]
  have shown1: "\<not> cls_maximized ?e1" "\<not> isHidden v ?e1"
    using shown by (simp_all add: e1)
  show ?thesis
    by (subst ensure_shown [OF shown1]) (simp add: e1 fitWidth_idem fitHeight_idem clamp_idem)
qed

section \<open>Lifecycle commands\<close>

text \<open>
  C9, at a name with a double quote: on the page whose window and dock icon are named
  \<open>a"b\<close>, \<open>minimizeWindow\<close> sets the closed window's state to minimized and then throws
  the \<open>SyntaxError\<close> of \<open>document.querySelector\<close>: the dock icon is not marked. (For a
  registered window with a plain name \<open>minimizeWindow\<close> returns with the state minimized
  and the dock icon marked, whatever the state was before: \<open>minimize_plain_name\<close>.)
\<close>

theorem minimize_quoted_name_throws:
  "quotedName = [CHR ''a'', CHR 0x22, CHR ''b''] \<and>
   map_option state (windows quotedPage quotedName) = Some Closed \<and>
   dock quotedPage quotedName = Some False \<and>
   (\<exists>s'. minimizeWindow v quotedPage quotedName = SyntaxError s' \<and>
         map_option state (windows s' quotedName) = Some Minimized \<and>
         dock s' quotedName = Some False)"
  by (simp add: quotedName_def quotedPage_def register_def constructor_def minimizeWindow_def
      lookupWindow_def updateDockIcon_def querySelectorDockIcon_def quoteBroken_def
      plainChar_def asciiLetter_def)

text \<open>
  C7, at a name that is no window: on the page with the single window \<open>about\<close>, the name
  \<open>constructor\<close> is not registered, yet \<open>bringToFront\<close> and \<open>openWindow\<close> increment the
  stacking counter and throw, and \<open>closeWindow\<close>, \<open>minimizeWindow\<close> and \<open>maximizeWindow\<close>
  throw.
\<close>

theorem inherited_name_throws:
  "windows page ''constructor'' = None \<and>
   bringToFront page ''constructor'' = TypeError (page\<lparr>maxZIndex := 201\<rparr>) \<and>
   openWindow v page ''constructor'' = TypeError (page\<lparr>maxZIndex := 201\<rparr>) \<and>
   closeWindow v page ''constructor'' = TypeError page \<and>
   minimizeWindow v page ''constructor'' = TypeError page \<and>
   maximizeWindow v page ''constructor'' = TypeError page"
  by (simp add: ops objectPrototypeKeys_def concrete)

section \<open>The recorded active window\<close>

text \<open>
  C10: \<open>closeWindow\<close> and \<open>minimizeWindow\<close> leave the manager's \<open>activeWindow\<close>
  reference as it was, also when the window they close or minimize is the one it names; and
  every event either leaves the reference unchanged or is one that hands a window to
  \<open>bringToFront\<close>, after which the reference names that window.
\<close>

theorem activeWindow_written_by_bringToFront_only:
  "activeWindow (state_of (closeWindow v s n)) = activeWindow s \<and>
   activeWindow (state_of (minimizeWindow v s n)) = activeWindow s \<and>
   (activeWindow (exec v s ev) = activeWindow s \<or>
    (\<exists>m. frontTarget ev = Some m \<and> activeWindow (exec v s ev) = Some m))"
proof -
  have "activeWindow (exec v s ev) = activeWindow s \<or>
    (\<exists>m. frontTarget ev = Some m \<and> activeWindow (exec v s ev) = Some m)"
  proof (cases ev)
    case (OpenWindow n) then show ?thesis using aw_open [of v s n] by (simp add: exec_def)
  next
    case (CloseWindow n) then show ?thesis by (simp add: exec_def aw_close)
  next
    case (MinimizeWindow n) then show ?thesis by (simp add: exec_def aw_minimize)
  next
    case (MaximizeWindow n) then show ?thesis by (simp add: exec_def aw_maximize)
  next
    case (ToggleWindow n) then show ?thesis using aw_toggle [of v s n] by (simp add: exec_def)
  next
    case (BringToFront n) then show ?thesis using aw_bringToFront [of s n] by (simp add: exec_def)
  next
    case (TitleMouseDown n c x y)
    then show ?thesis using aw_title [of v s n c x y] by (auto simp add: exec_def)
  next
    case (HandleMouseDown n d x y)
    then show ?thesis using aw_handleDown [of v s n d x y] by (simp add: exec_def)
  next
    case (MouseMove x y) then show ?thesis by (simp add: exec_def aw_mouseMove)
  next
    case MouseUp then show ?thesis by (simp add: exec_def aw_mouseUp)
  next
    case ViewportResize then show ?thesis by (simp add: exec_def aw_ensureAll)
  qed
  then show ?thesis by (simp add: aw_close aw_minimize)
qed


section \<open>Dragging\<close>

text \<open>
  C3, as amended: a pointer move during a drag returns with the dragged window's left at
  least 0 and its top at least the menu bar's height. Its left is at most the viewport width
  minus the window's width when the window is no wider than the viewport, and is 0 when the
  window is wider; its top is at most the viewport height minus the window's height when the
  window fits below the menu bar, and is the menu bar's height when it does not.
\<close>

theorem drag_move_clamped:
  assumes "\<not> resizing s" "dragging s" "currentDraggedWindow s = Some n" "n \<noteq> []"
    and "windows s n = Some wd"
  shows "\<exists>s' wd'. mouseMove v s x y = Returned s' \<and> windows s' n = Some wd' \<and>
           0 \<le> style_left (element wd') \<and>
           menuBarHeight s \<le> style_top (element wd') \<and>
           (offsetWidth v (element wd') \<le> clientWidth v \<longrightarrow>
              style_left (element wd') \<le> clientWidth v - offsetWidth v (element wd')) \<and>
           (menuBarHeight s + offsetHeight v (element wd') \<le> clientHeight v \<longrightarrow>
              style_top (element wd') \<le> clientHeight v - offsetHeight v (element wd')) \<and>
           (clientWidth v < offsetWidth v (element wd') \<longrightarrow> style_left (element wd') = 0) \<and>
           (clientHeight v < menuBarHeight s + offsetHeight v (element wd') \<longrightarrow>
              style_top (element wd') = menuBarHeight s)"
proof (cases "cls_maximized (element wd)")
  case False
  with assms show ?thesis
    by (simp add: mouseMove_def truthyName_def lookup_own mapElement_def Let_def)
next
  case True
  with assms show ?thesis
    by (simp add: mouseMove_def truthyName_def lookup_own mapElement_def Let_def
        maximize_restore)
qed

theorem drag_move_clamped_witness:
  "\<not> resizing grabbed \<and> dragging grabbed \<and> currentDraggedWindow grabbed = Some ''about'' \<and>
   isActive grabbed ''about'' \<and>
   (\<exists>s' wd'. mouseMove (desk 1200 800) grabbed 5000 (-40) = Returned s' \<and>
      windows s' ''about'' = Some wd' \<and>
      0 \<le> style_left (element wd') \<and> style_left (element wd') \<le> 1200 - 400 \<and>
      30 \<le> style_top (element wd') \<and> style_top (element wd') \<le> 800 - 300) \<and>
   \<not> resizing squeezed \<and> dragging squeezed \<and> currentDraggedWindow squeezed = Some ''about'' \<and>
   isActive squeezed ''about'' \<and>
   (\<exists>s' wd'. mouseMove (desk 1200 50) squeezed 160 46 = Returned s' \<and>
      windows s' ''about'' = Some wd' \<and> offsetHeight (desk 1200 50) (element wd') = 300 \<and>
      style_top (element wd') = 30)"
proof -
  let ?d = "desk 1200 800"
  let ?t = "desk 1200 50"
  have h: "\<not> resizing grabbed" "dragging grabbed" "currentDraggedWindow grabbed = Some ''about''"
    "isActive grabbed ''about''"
    by code_simp+
  obtain wd where w: "windows grabbed ''about'' = Some wd"
    using registered_of_active [OF h(4)] by blast
  from drag_move_clamped [OF h(1,2,3) _ w, of ?d 5000 "-40"]
  obtain s' wd' where r: "mouseMove ?d grabbed 5000 (-40) = Returned s'"
    "windows s' ''about'' = Some wd'"
    "0 \<le> style_left (element wd')" "menuBarHeight grabbed \<le> style_top (element wd')"
    "offsetWidth ?d (element wd') \<le> clientWidth ?d \<longrightarrow>
       style_left (element wd') \<le> clientWidth ?d - offsetWidth ?d (element wd')"
    "menuBarHeight grabbed + offsetHeight ?d (element wd') \<le> clientHeight ?d \<longrightarrow>
       style_top (element wd') \<le> clientHeight ?d - offsetHeight ?d (element wd')"
    by auto
  have e: "map_option (offsetWidth ?d) (elementOf (state_of (mouseMove ?d grabbed 5000 (-40))) ''about'') = Some 400"
    "map_option (offsetHeight ?d) (elementOf (state_of (mouseMove ?d grabbed 5000 (-40))) ''about'') = Some 300"
    "menuBarHeight grabbed = 30" "clientWidth ?d = 1200" "clientHeight ?d = 800"
    by code_simp+
  from e(1,2) r(1,2) have "offsetWidth ?d (element wd') = 400" "offsetHeight ?d (element wd') = 300"
    by (simp_all add: elementOf_def)
  with r e(3,4,5) have first: "\<exists>s' wd'. mouseMove ?d grabbed 5000 (-40) = Returned s' \<and>
      windows s' ''about'' = Some wd' \<and>
      0 \<le> style_left (element wd') \<and> style_left (element wd') \<le> 1200 - 400 \<and>
      30 \<le> style_top (element wd') \<and> style_top (element wd') \<le> 800 - 300"
    by auto
  have k: "\<not> resizing squeezed" "dragging squeezed" "currentDraggedWindow squeezed = Some ''about''"
    "isActive squeezed ''about''"
    by code_simp+
  obtain wq where q: "windows squeezed ''about'' = Some wq"
    using registered_of_active [OF k(4)] by blast
  from drag_move_clamped [OF k(1,2,3) _ q, of ?t 160 46]
  obtain s2 wd2 where r2: "mouseMove ?t squeezed 160 46 = Returned s2"
    "windows s2 ''about'' = Some wd2"
    "clientHeight ?t < menuBarHeight squeezed + offsetHeight ?t (element wd2) \<longrightarrow>
       style_top (element wd2) = menuBarHeight squeezed"
    by auto
  have e2: "map_option (offsetHeight ?t) (elementOf (state_of (mouseMove ?t squeezed 160 46)) ''about'') = Some 300"
    "menuBarHeight squeezed = 30" "clientHeight ?t = 50"
    by code_simp+
  from e2(1) r2(1,2) have o2: "offsetHeight ?t (element wd2) = 300"
    by (simp add: elementOf_def)
  with r2 e2 have second: "\<exists>s' wd'. mouseMove ?t squeezed 160 46 = Returned s' \<and>
      windows s' ''about'' = Some wd' \<and> offsetHeight ?t (element wd') = 300 \<and>
      style_top (element wd') = 30"
    by auto
  show ?thesis using h k first second by blast
qed

text \<open>
  The claim as stated fails where the window does not fit: after the viewport has shrunk to a
  height of 50 (too low for the containment pass to cut the window's height), a move of the
  dragged window, 300 high, puts its top at 30, above the claimed upper bound \<open>50 - 300\<close>.
\<close>

theorem drag_clamp_counterexample:
  "\<not> resizing squeezed \<and> dragging squeezed \<and> currentDraggedWindow squeezed = Some ''about'' \<and>
   elementOf squeezed ''about'' =
     Some \<lparr>cls_active = True, cls_maximized = False, cls_minimized = False,
           style_left = 100, style_top = 42, style_width = 400, style_height = 300,
           style_zIndex = Some 202\<rparr> \<and>
   elementOf (exec (desk 1200 50) squeezed (MouseMove 160 46)) ''about'' =
     Some \<lparr>cls_active = True, cls_maximized = False, cls_minimized = False,
           style_left = 110, style_top = 30, style_width = 400, style_height = 300,
           style_zIndex = Some 202\<rparr> \<and>
   map_option (\<lambda>e. style_top e \<le> clientHeight (desk 1200 50) - offsetHeight (desk 1200 50) e)
     (elementOf (exec (desk 1200 50) squeezed (MouseMove 160 46)) ''about'') = Some False"
  by code_simp

text \<open>
  C8, as amended: a pointer-down on the title bar of a registered window (not on a control
  button) returns; when the window is not maximized its measured position is stored as
  \<open>originalPosition\<close>, when it is maximized \<open>originalPosition\<close> is left as it was; the
  stored size is never touched.
\<close>

theorem titleMouseDown_records_position_unless_maximized:
  assumes "windows s n = Some wd"
  shows "\<exists>s' wd'. titleMouseDown v s n False x y = Returned s' \<and> windows s' n = Some wd' \<and>
           originalSize wd' = originalSize wd \<and>
           originalPosition wd' =
             (if cls_maximized (element wd) then originalPosition wd
              else \<lparr>p_x = r_left (getBoundingClientRect v (element wd')),
                    p_y = r_top (getBoundingClientRect v (element wd'))\<rparr>)"
  using assms
  by (simp add: titleMouseDown_def bringToFront_registered Let_def)

theorem titleMouseDown_witness:
  "isActive opened ''about'' \<and>
   map_option originalPosition (windows opened ''about'') = Some \<lparr>p_x = 0, p_y = 0\<rparr> \<and>
   (\<exists>s' wd'. titleMouseDown (desk 1200 800) opened ''about'' False 150 110 = Returned s' \<and>
      windows s' ''about'' = Some wd' \<and> originalPosition wd' = \<lparr>p_x = 100, p_y = 100\<rparr>)"
proof -
  let ?d = "desk 1200 800"
  have h: "isActive opened ''about''"
    "map_option originalPosition (windows opened ''about'') = Some \<lparr>p_x = 0, p_y = 0\<rparr>"
    by code_simp+
  obtain wd where w: "windows opened ''about'' = Some wd"
    using registered_of_active [OF h(1)] by blast
  from titleMouseDown_records_position_unless_maximized [OF w, of ?d 150 110]
  obtain s' wd' where r: "titleMouseDown ?d opened ''about'' False 150 110 = Returned s'"
    "windows s' ''about'' = Some wd'" by blast
  have "map_option originalPosition
      (windows (state_of (titleMouseDown ?d opened ''about'' False 150 110)) ''about'') =
      Some \<lparr>p_x = 100, p_y = 100\<rparr>"
    by code_simp
  with r have "originalPosition wd' = \<lparr>p_x = 100, p_y = 100\<rparr>" by simp
  with r h show ?thesis by blast
qed

text \<open>
  The claim as stated fails: the window was opened at (100, 100) and maximized, so that it
  measures as the box at (0, 30) of size 1200 by 770; the pointer-down on its title bar starts
  the drag and records nothing, the restore bounds stay those stored by \<open>maximizeWindow\<close>.
\<close>

theorem drag_start_counterexample:
  "map_option cls_maximized (elementOf maximizedPage ''about'') = Some True \<and>
   map_option (getBoundingClientRect (desk 1200 800)) (elementOf maximizedPage ''about'') =
     Some \<lparr>r_left = 0, r_top = 30, r_width = 1200, r_height = 770\<rparr> \<and>
   map_option originalPosition (windows maximizedPage ''about'') =
     Some \<lparr>p_x = 100, p_y = 100\<rparr> \<and>
   dragging (exec (desk 1200 800) maximizedPage (TitleMouseDown ''about'' False 300 40)) \<and>
   map_option originalPosition
     (windows (exec (desk 1200 800) maximizedPage (TitleMouseDown ''about'' False 300 40))
        ''about'') = Some \<lparr>p_x = 100, p_y = 100\<rparr> \<and>
   map_option originalSize
     (windows (exec (desk 1200 800) maximizedPage (TitleMouseDown ''about'' False 300 40))
        ''about'') = Some \<lparr>e_width = 400, e_height = 300\<rparr>"
  by code_simp

section \<open>Resizing\<close>




section \<open>Maximize and restore\<close>




section \<open>Focus and stacking\<close>

text \<open>
  C1, as amended: in a state where the invariant holds (at most one window is active; the
  active window, if any, has a stack order and no window has a greater one; no minimized
  window is active) and no assigned stack order exceeds the stacking counter, every event
  keeps the first two parts and the counter's bound; it keeps the whole invariant provided
  \<open>bringToFront\<close>, a title-bar press and a resize-handle press are not applied to a minimized
  window; and \<open>bringToFront\<close> of a registered minimized window makes that window active
  while it stays minimized.
\<close>

theorem focus_invariant_preserved:
  assumes "focusInvariant s" "counterBounds s"
  shows "atMostOneActive (exec v s ev) \<and> activeOnTop (exec v s ev) \<and>
         counterBounds (exec v s ev) \<and>
         ((\<forall>n. raisesAsIs ev = Some n \<longrightarrow> \<not> isMinimized s n) \<longrightarrow>
            focusInvariant (exec v s ev)) \<and>
         (windows s n = Some wd \<and> state wd = Minimized \<longrightarrow>
            isActive (exec v s (BringToFront n)) n \<and>
            isMinimized (exec v s (BringToFront n)) n)"
proof -
  have "focusInvariant (exec v s ev)" if "\<forall>n. raisesAsIs ev = Some n \<longrightarrow> \<not> isMinimized s n"
    using exec_preserves [OF assms, of ev v] that by simp
  with exec_stack [OF assms, of v ev] bringToFront_minimized [of s n wd v]
  show ?thesis by blast
qed

theorem focus_invariant_preserved_witness:
  "focusInvariant bothOpen \<and> counterBounds bothOpen \<and>
   isActive bothOpen ''notes'' \<and> \<not> isActive bothOpen ''about'' \<and>
   stackOrder bothOpen ''about'' = Some 201 \<and> stackOrder bothOpen ''notes'' = Some 202 \<and>
   raisesAsIs (BringToFront ''about'') = Some ''about'' \<and> \<not> isMinimized bothOpen ''about'' \<and>
   focusInvariant (exec (desk 1200 800) bothOpen (BringToFront ''about'')) \<and>
   isActive (exec (desk 1200 800) bothOpen (BringToFront ''about'')) ''about'' \<and>
   \<not> isActive (exec (desk 1200 800) bothOpen (BringToFront ''about'')) ''notes'' \<and>
   stackOrder (exec (desk 1200 800) bothOpen (BringToFront ''about'')) ''about'' = Some 203 \<and>
   focusInvariant minimizedPage \<and> counterBounds minimizedPage \<and>
   isMinimized minimizedPage ''about'' \<and>
   isActive (exec (desk 1200 800) minimizedPage (BringToFront ''about'')) ''about'' \<and>
   isMinimized (exec (desk 1200 800) minimizedPage (BringToFront ''about'')) ''about''"
proof -
  let ?d = "desk 1200 800"
  have i: "focusInvariant bothOpen" and c: "counterBounds bothOpen"
    using bothOpen_invariant by simp_all
  have f: "isActive bothOpen ''notes''" "\<not> isActive bothOpen ''about''"
    "stackOrder bothOpen ''about'' = Some 201" "stackOrder bothOpen ''notes'' = Some 202"
    "\<not> isMinimized bothOpen ''about''"
    "isActive (exec ?d bothOpen (BringToFront ''about'')) ''about''"
    "\<not> isActive (exec ?d bothOpen (BringToFront ''about'')) ''notes''"
    "stackOrder (exec ?d bothOpen (BringToFront ''about'')) ''about'' = Some 203"
    "isMinimized minimizedPage ''about''"
    by code_simp+
  have h: "\<forall>n. raisesAsIs (BringToFront ''about'') = Some n \<longrightarrow> \<not> isMinimized bothOpen n"
    using f(5) by simp
  note T = focus_invariant_preserved [OF i c, of ?d "BringToFront ''about''"]
  from T h have a: "focusInvariant (exec ?d bothOpen (BringToFront ''about''))" by blast
  have i2: "focusInvariant minimizedPage" and c2: "counterBounds minimizedPage"
    using minimizedPage_invariant by simp_all
  obtain wd where w: "windows minimizedPage ''about'' = Some wd" "state wd = Minimized"
    using f(9) by (auto simp: isMinimized_def split: option.splits)
  from focus_invariant_preserved [OF i2 c2, of ?d MouseUp "''about''" wd] w
  have b: "isActive (exec ?d minimizedPage (BringToFront ''about'')) ''about'' \<and>
           isMinimized (exec ?d minimizedPage (BringToFront ''about'')) ''about''"
    by blast
  show ?thesis using i c f a i2 c2 b by simp
qed

text \<open>
  The claim as stated fails for \<open>bringToFront\<close>: on the page whose window was opened and
  then minimized the invariant holds, and \<open>bringToFront\<close> makes the minimized window the
  active one.
\<close>

theorem minimized_window_activated:
  "focusInvariant minimizedPage \<and> counterBounds minimizedPage \<and>
   isMinimized minimizedPage ''about'' \<and>
   isMinimized (exec (desk 1200 800) minimizedPage (BringToFront ''about'')) ''about'' \<and>
   isActive (exec (desk 1200 800) minimizedPage (BringToFront ''about'')) ''about'' \<and>
   \<not> focusInvariant (exec (desk 1200 800) minimizedPage (BringToFront ''about''))"
proof -
  let ?d = "desk 1200 800"
  have m0: "isMinimized minimizedPage ''about''" by code_simp
  have m: "isMinimized (exec ?d minimizedPage (BringToFront ''about'')) ''about''" by code_simp
  have a: "isActive (exec ?d minimizedPage (BringToFront ''about'')) ''about''" by code_simp
  have "\<not> focusInvariant (exec ?d minimizedPage (BringToFront ''about''))"
    using m a by (auto simp: focusInvariant_def minimizedNotActive_def)
  then show ?thesis using minimizedPage_invariant m0 m a by simp
qed

text \<open>
  C2, as amended: the stacking counter is seeded at 200. On a page none of whose windows
  carries an inline \<open>z-index\<close> above 200, in every state reached from \<open>init\<close> by a run of
  events no assigned stack order exceeds the counter, and \<open>bringToFront\<close> of a registered
  window returns with that window active and its stack order, the new counter, strictly
  greater than every other window's. Along every further run the counter never decreases; and
  a stack order assigned by an event is greater than the counter before the event, so it is
  held by no window before the event, nor in any earlier state of the run.
\<close>

theorem stacking_counter:
  fixes s s2 :: manager and v0 :: env and menuBar :: "real option"
    and elements :: "(string \<times> element) list" and icons :: "string \<rightharpoonup> bool"
    and evs evs2 :: "(env \<times> event) list"
  assumes "\<forall>ne\<in>set elements. \<forall>z. style_zIndex (snd ne) = Some z \<longrightarrow> z \<le> 200"
  defines "s \<equiv> run (init v0 menuBar elements icons) evs"
  defines "s2 \<equiv> run s evs2"
  shows "maxZIndex (constructor icons) = 200 \<and> counterBounds s \<and> 200 \<le> maxZIndex s \<and>
    (windows s n = Some wd \<longrightarrow>
       (\<exists>s'. bringToFront s n = Returned s' \<and> isActive s' n \<and>
             stackOrder s' n = Some (maxZIndex s') \<and>
             (\<forall>m z. m \<noteq> n \<and> stackOrder s' m = Some z \<longrightarrow> z < maxZIndex s'))) \<and>
    maxZIndex s \<le> maxZIndex s2 \<and>
    (\<forall>m z. stackOrder (exec v s2 ev) m = Some z \<and> stackOrder s2 m \<noteq> Some z \<longrightarrow>
       maxZIndex s2 < z \<and> (\<forall>k. stackOrder s k \<noteq> Some z \<and> stackOrder s2 k \<noteq> Some z))"
proof -
  have p1: "maxZIndex (constructor icons) = 200" by (simp add: constructor_def)
  note i0 = init_counterBounds [OF assms(1), of v0 menuBar icons]
  have cs: "counterBounds s" and zs: "200 \<le> maxZIndex s"
    using run_counter [OF conjunct1 [OF i0], of evs] i0 by (simp_all add: s_def)
  have p2: "\<exists>s'. bringToFront s n = Returned s' \<and> isActive s' n \<and>
             stackOrder s' n = Some (maxZIndex s') \<and>
             (\<forall>m z. m \<noteq> n \<and> stackOrder s' m = Some z \<longrightarrow> z < maxZIndex s')"
    if w: "windows s n = Some wd"
  proof -
    define s3 where "s3 = state_of (bringToFront s n)"
    have b: "bringToFront s n = Returned s3"
      using bringToFront_registered [OF w] by (simp add: s3_def)
    have r: "raised s n s3" using raised_bringToFront [OF w] by (simp add: s3_def)
    then have a: "isActive s3 n"
      and st: "stackOrder s3 = (stackOrder s)(n := Some (maxZIndex s + 1))"
      and z: "maxZIndex s3 = maxZIndex s + 1"
      by (simp_all add: raised_def)
    have "z' < maxZIndex s3" if "m \<noteq> n" "stackOrder s3 m = Some z'" for m z'
    proof -
      from that have "stackOrder s m = Some z'" by (simp add: st)
      with cs have "z' \<le> maxZIndex s" by (simp add: counterBounds_def)
      then show ?thesis by (simp add: z)
    qed
    with b a st z show ?thesis by auto
  qed
  have p34: "counterBounds s2 \<and> maxZIndex s \<le> maxZIndex s2"
    unfolding s2_def by (rule run_counter [OF cs])
  have p5: "maxZIndex s2 < z \<and> (\<forall>k. stackOrder s k \<noteq> Some z \<and> stackOrder s2 k \<noteq> Some z)"
    if h: "stackOrder (exec v s2 ev) m = Some z" "stackOrder s2 m \<noteq> Some z" for m z
  proof -
    have zz: "z = maxZIndex s2 + 1" by (rule exec_fresh [OF h])
    have "stackOrder s k \<noteq> Some z" for k
      using cs p34 zz by (fastforce simp: counterBounds_def)
    moreover have "stackOrder s2 k \<noteq> Some z" for k
      using p34 zz by (fastforce simp: counterBounds_def)
    ultimately show ?thesis using zz by simp
  qed
  show ?thesis using p1 cs zs p2 p34 p5 by blast
qed

theorem stacking_counter_witness:
  "map (style_zIndex \<circ> snd) desktopWindows = [None, None] \<and>
   counterBounds bothOpen \<and> 200 \<le> maxZIndex bothOpen \<and>
   stackOrder bothOpen ''about'' = Some 201 \<and> stackOrder bothOpen ''notes'' = Some 202 \<and>
   (\<exists>s'. bringToFront bothOpen ''about'' = Returned s' \<and> isActive s' ''about'' \<and>
         stackOrder s' ''about'' = Some (maxZIndex s') \<and>
         stackOrder s' ''notes'' = Some 202 \<and> 202 < maxZIndex s') \<and>
   stackOrder (exec (desk 1200 800) bothOpen (BringToFront ''about'')) ''about'' = Some 203 \<and>
   maxZIndex bothOpen < 203"
proof -
  let ?d = "desk 1200 800"
  have e: "map (style_zIndex \<circ> snd) desktopWindows = [None, None]" by code_simp
  have p: "\<forall>ne\<in>set desktopWindows. \<forall>z. style_zIndex (snd ne) = Some z \<longrightarrow> z \<le> 200"
    by (simp add: desktopWindows_def notesElement_def aboutElement_def)
  have b: "run (init ?d None desktopWindows [''about'' \<mapsto> False, ''notes'' \<mapsto> False])
             [(?d, OpenWindow ''notes'')] = bothOpen"
    by (simp add: bothOpen_def desktop_def)
  have f: "stackOrder bothOpen ''about'' = Some 201" "stackOrder bothOpen ''notes'' = Some 202"
    "isActive bothOpen ''notes''"
    "stackOrder (exec ?d bothOpen (BringToFront ''about'')) ''about'' = Some 203"
    "stackOrder (state_of (bringToFront bothOpen ''about'')) ''notes'' = Some 202"
    by code_simp+
  obtain wd where w: "windows bothOpen ''notes'' = Some wd"
    using registered_of_active [OF f(3)] by blast
  obtain wa where wa: "windows bothOpen ''about'' = Some wa"
    using f(1) by (auto simp: stackOrder_def split: option.splits)
  note T = stacking_counter [OF p, where ?v0.0 = ?d and menuBar = None
      and icons = "[''about'' \<mapsto> False, ''notes'' \<mapsto> False]"
      and evs = "[(?d, OpenWindow ''notes'')]" and ?evs2.0 = "[]"
      and n = "''about''" and wd = wa and v = ?d and ev = "BringToFront ''about''",
      unfolded b, unfolded run.simps]
  from T have cb: "counterBounds bothOpen" and z: "200 \<le> maxZIndex bothOpen" by simp_all
  from T wa obtain s' where s': "bringToFront bothOpen ''about'' = Returned s'"
    "isActive s' ''about''" "stackOrder s' ''about'' = Some (maxZIndex s')"
    "\<forall>m z. m \<noteq> ''about'' \<and> stackOrder s' m = Some z \<longrightarrow> z < maxZIndex s'"
    by blast
  from f(5) s'(1) have n2: "stackOrder s' ''notes'' = Some 202" by simp
  from s'(4) [rule_format, of "''notes''" 202] n2 have lt: "202 < maxZIndex s'" by simp
  note F = T [THEN conjunct2, THEN conjunct2, THEN conjunct2, THEN conjunct2, THEN conjunct2,
      rule_format, of "''about''" 203]
  have fr: "maxZIndex bothOpen < 203" using F f(1,4) by simp
  from s' n2 lt have "\<exists>s'. bringToFront bothOpen ''about'' = Returned s' \<and> isActive s' ''about'' \<and>
         stackOrder s' ''about'' = Some (maxZIndex s') \<and>
         stackOrder s' ''notes'' = Some 202 \<and> 202 < maxZIndex s'" by blast
  with e cb z f fr show ?thesis by simp
qed

text \<open>
  The claim as stated fails on a page whose markup gives a window an inline \<open>z-index\<close>
  above the counter: \<open>init\<close> opens \<open>about\<close> with stack order 201 below the 500 of
  \<open>notes\<close>, and another \<open>bringToFront\<close> gives it 202.
\<close>

theorem inline_zIndex_counterexample:
  "isActive taggedDesktop ''about'' \<and>
   stackOrder taggedDesktop ''about'' = Some 201 \<and>
   stackOrder taggedDesktop ''notes'' = Some 500 \<and>
   isActive (state_of (bringToFront taggedDesktop ''about'')) ''about'' \<and>
   stackOrder (state_of (bringToFront taggedDesktop ''about'')) ''about'' = Some 202 \<and>
   stackOrder (state_of (bringToFront taggedDesktop ''about'')) ''notes'' = Some 500"
  by code_simp

end
